theory Spec2Isabelle
  imports Main "HOL-Library.Word"
begin

section \<open>The message ledger: contract EncryptedMessaging\<close>

text \<open>
  Solidity value types are machine words of their declared width. A Solidity
  \<^verbatim>\<open>mapping\<close> is a total function whose unwritten slots read as zero, a dynamic
  array is a list, an emitted event is appended to the log held in the state.
\<close>

type_synonym address = "160 word"
type_synonym bytes32 = "256 word"
type_synonym bytes12 = "96 word"
type_synonym uint8 = "8 word"
type_synonym uint64 = "64 word"
type_synonym uint128 = "128 word"
type_synonym uint256 = "256 word"
type_synonym bytes = "8 word list"

text \<open>
  \<^verbatim>\<open>struct MessageMeta\<close> and \<^verbatim>\<open>struct KeyRecord\<close>. The field names
  carry a prefix, since the functions below take parameters of the same names.
\<close>

record MessageMeta =
  m_id :: uint256
  m_sender :: address
  m_recipient :: address
  m_timestamp :: uint64
  m_sha256Hash :: bytes32
  m_iv :: bytes12
  m_contentCidHash :: bytes32
  m_keyCidHash :: bytes32
  m_nonce :: uint128
  m_sigR :: bytes32
  m_sigS :: bytes32
  m_sigV :: uint8

record KeyRecord =
  k_rsaPubKeySha256 :: bytes32
  k_rsaPubKeyURI :: string
  k_updatedAt :: uint64

text \<open>The three events, with their arguments in the order of the declaration.\<close>

datatype event =
    MessageSent uint256 address address uint64 bytes32 bytes12 bytes32 bytes32 uint128
  | KeyRegistered address bytes32 string uint64
  | MinIntervalUpdated uint64

text \<open>The storage of the contract, and the log of the events emitted so far.\<close>

record ledger =
  nextMessageId :: uint256
  messages :: "uint256 \<Rightarrow> MessageMeta"
  inboxIndex :: "address \<Rightarrow> uint256 list"
  outboxIndex :: "address \<Rightarrow> uint256 list"
  lastNonce :: "address \<Rightarrow> uint128"
  minIntervalSeconds :: uint64
  lastSentAt :: "address \<Rightarrow> uint64"
  usedIV :: "address \<Rightarrow> address \<Rightarrow> bytes12 \<Rightarrow> bool"
  keyRegistry :: "address \<Rightarrow> KeyRecord"
  events :: "event list"

definition zero_MessageMeta :: MessageMeta where
  "zero_MessageMeta =
     \<lparr>m_id = 0, m_sender = 0, m_recipient = 0, m_timestamp = 0, m_sha256Hash = 0,
      m_iv = 0, m_contentCidHash = 0, m_keyCidHash = 0, m_nonce = 0,
      m_sigR = 0, m_sigS = 0, m_sigV = 0\<rparr>"

definition zero_KeyRecord :: KeyRecord where
  "zero_KeyRecord = \<lparr>k_rsaPubKeySha256 = 0, k_rsaPubKeyURI = [], k_updatedAt = 0\<rparr>"

text \<open>
  The storage right after deployment: \<^verbatim>\<open>nextMessageId = 1\<close>,
  \<^verbatim>\<open>minIntervalSeconds = 10\<close>, every mapping empty.
\<close>

definition deployed :: ledger where
  "deployed =
     \<lparr>nextMessageId = 1,
      messages = (\<lambda>_. zero_MessageMeta),
      inboxIndex = (\<lambda>_. []),
      outboxIndex = (\<lambda>_. []),
      lastNonce = (\<lambda>_. 0),
      minIntervalSeconds = 10,
      lastSentAt = (\<lambda>_. 0),
      usedIV = (\<lambda>_ _ _. False),
      keyRegistry = (\<lambda>_. zero_KeyRecord),
      events = []\<rparr>"

text \<open>
  A call reverts with the message of the \<^verbatim>\<open>require\<close> that failed, or panics
  (code 0x11) when checked arithmetic under- or overflows, as Solidity 0.8 does.
  The constructors stand for the revert strings
  \<^verbatim>\<open>"recipient=0"\<close>, \<^verbatim>\<open>"sha256Hash=0"\<close>, \<^verbatim>\<open>"iv=0"\<close>, \<^verbatim>\<open>"rate-limited"\<close>,
  \<^verbatim>\<open>"IV already used"\<close>, \<^verbatim>\<open>"bad nonce"\<close> and \<^verbatim>\<open>"bad signature"\<close>.
\<close>

datatype revert =
    RecipientZero
  | Sha256HashZero
  | IvZero
  | RateLimited
  | IVAlreadyUsed
  | BadNonce
  | BadSignature
  | ArithmeticPanic

text \<open>
  The two primitives of the virtual machine that the contract calls are parameters
  of the model: the hash \<^verbatim>\<open>keccak256\<close> and the signer recovery \<^verbatim>\<open>ecrecover\<close>.
\<close>

record evm =
  keccak256 :: "bytes \<Rightarrow> bytes32"
  ecrecover :: "bytes32 \<Rightarrow> uint8 \<Rightarrow> bytes32 \<Rightarrow> bytes32 \<Rightarrow> address"

text \<open>
  \<^verbatim>\<open>abi.encodePacked\<close> lays a fixed-size value out as its bytes, most significant
  first, with no padding, and a string as its bytes.
\<close>

definition be_bytes :: "nat \<Rightarrow> 'a::len word \<Rightarrow> bytes" where
  "be_bytes n w = map (\<lambda>i. ucast (drop_bit (8 * i) w)) (rev [0..<n])"

definition bytes_of :: "string \<Rightarrow> bytes" where
  "bytes_of str = map of_char str"

definition commit_packed ::
  "address \<Rightarrow> address \<Rightarrow> uint64 \<Rightarrow> bytes32 \<Rightarrow> bytes12 \<Rightarrow> bytes32 \<Rightarrow> bytes32 \<Rightarrow> uint128 \<Rightarrow> bytes"
where
  "commit_packed msg_sender recipient nowTs sha256Hash iv contentCidHash keyCidHash nonce =
     [0x19, 0x45] @ bytes_of ''MSG:'' @ be_bytes 20 msg_sender @ be_bytes 20 recipient
       @ be_bytes 8 nowTs @ be_bytes 32 sha256Hash @ be_bytes 12 iv
       @ be_bytes 32 contentCidHash @ be_bytes 32 keyCidHash @ be_bytes 16 nonce"

definition signed_message_packed :: "bytes32 \<Rightarrow> bytes" where
  "signed_message_packed commit =
     [0x19] @ bytes_of ''Ethereum Signed Message:'' @ [0x0A] @ bytes_of ''32''
       @ be_bytes 32 commit"

definition ethMsgHash_of ::
  "evm \<Rightarrow> address \<Rightarrow> address \<Rightarrow> uint64 \<Rightarrow> bytes32 \<Rightarrow> bytes12 \<Rightarrow> bytes32 \<Rightarrow> bytes32 \<Rightarrow> uint128 \<Rightarrow> bytes32"
where
  "ethMsgHash_of vm msg_sender recipient nowTs sha256Hash iv contentCidHash keyCidHash nonce =
     keccak256 vm (signed_message_packed (keccak256 vm
       (commit_packed msg_sender recipient nowTs sha256Hash iv contentCidHash keyCidHash nonce)))"

text \<open>
  The body of \<^verbatim>\<open>sendMessage\<close>, statement by statement. It returns the storage as
  it stands where the body stops: a failed \<^verbatim>\<open>require\<close> after line 124 leaves the
  body with \<^verbatim>\<open>lastSentAt\<close> already written. \<^verbatim>\<open>nowTs - lastTs\<close>,
  \<^verbatim>\<open>lastNonce[msg.sender] + 1\<close> and \<^verbatim>\<open>nextMessageId++\<close> are checked arithmetic.
\<close>

definition sendMessage_body ::
  "evm \<Rightarrow> address \<Rightarrow> uint256 \<Rightarrow> address \<Rightarrow> string \<Rightarrow> string \<Rightarrow> bytes32 \<Rightarrow> bytes12 \<Rightarrow> uint128
     \<Rightarrow> uint8 \<Rightarrow> bytes32 \<Rightarrow> bytes32 \<Rightarrow> ledger \<Rightarrow> (revert + unit) \<times> ledger"
where
  "sendMessage_body vm msg_sender block_timestamp recipient contentCID keyCID sha256Hash iv nonce
       sigV sigR sigS s =
    (if recipient = 0 then (Inl RecipientZero, s)
     else if sha256Hash = 0 then (Inl Sha256HashZero, s)
     else if iv = 0 then (Inl IvZero, s)
     else
       let nowTs = (ucast block_timestamp :: uint64);
           lastTs = lastSentAt s msg_sender
       in
       if nowTs < lastTs then (Inl ArithmeticPanic, s)
       else if \<not> (nowTs - lastTs \<ge> minIntervalSeconds s) then (Inl RateLimited, s)
       else
         let s1 = s\<lparr>lastSentAt := (lastSentAt s)(msg_sender := nowTs)\<rparr> in
         if usedIV s1 msg_sender recipient iv then (Inl IVAlreadyUsed, s1)
         else
           let s2 = s1\<lparr>usedIV := (usedIV s1)(msg_sender :=
                      (usedIV s1 msg_sender)(recipient :=
                        (usedIV s1 msg_sender recipient)(iv := True)))\<rparr> in
           if lastNonce s2 msg_sender = - 1 then (Inl ArithmeticPanic, s2)
           else if \<not> (nonce = lastNonce s2 msg_sender + 1) then (Inl BadNonce, s2)
           else
             let s3 = s2\<lparr>lastNonce := (lastNonce s2)(msg_sender := nonce)\<rparr>;
                 contentCidHash = keccak256 vm (bytes_of contentCID);
                 keyCidHash = keccak256 vm (bytes_of keyCID)
             in
             if (sigV \<noteq> 0 \<or> sigR \<noteq> 0 \<or> sigS \<noteq> 0)
                \<and> \<not> (ecrecover vm
                      (ethMsgHash_of vm msg_sender recipient nowTs sha256Hash iv
                         contentCidHash keyCidHash nonce) sigV sigR sigS = msg_sender)
             then (Inl BadSignature, s3)
             else if nextMessageId s3 = - 1 then (Inl ArithmeticPanic, s3)
             else
               let mid = nextMessageId s3;
                   s4 = s3\<lparr>nextMessageId := mid + 1\<rparr>;
                   s5 = s4\<lparr>messages := (messages s4)(mid :=
                          \<lparr>m_id = mid, m_sender = msg_sender, m_recipient = recipient,
                           m_timestamp = nowTs, m_sha256Hash = sha256Hash, m_iv = iv,
                           m_contentCidHash = contentCidHash, m_keyCidHash = keyCidHash,
                           m_nonce = nonce, m_sigR = sigR, m_sigS = sigS, m_sigV = sigV\<rparr>)\<rparr>;
                   s6 = s5\<lparr>inboxIndex := (inboxIndex s5)(recipient := inboxIndex s5 recipient @ [mid])\<rparr>;
                   s7 = s6\<lparr>outboxIndex := (outboxIndex s6)(msg_sender := outboxIndex s6 msg_sender @ [mid])\<rparr>
               in (Inr (),
                   s7\<lparr>events := events s7 @ [MessageSent mid msg_sender recipient nowTs sha256Hash
                                               iv contentCidHash keyCidHash nonce]\<rparr>))"

text \<open>
  An external call is a transaction: when the body reverts or panics, every storage
  write and every event of the call is undone, and the storage is the one before the call.
\<close>

definition transaction :: "(ledger \<Rightarrow> (revert + unit) \<times> ledger) \<Rightarrow> ledger \<Rightarrow> (revert + unit) \<times> ledger" where
  "transaction body s = (case body s of (Inl e, _) \<Rightarrow> (Inl e, s) | (Inr v, s') \<Rightarrow> (Inr v, s'))"

definition sendMessage ::
  "evm \<Rightarrow> address \<Rightarrow> uint256 \<Rightarrow> address \<Rightarrow> string \<Rightarrow> string \<Rightarrow> bytes32 \<Rightarrow> bytes12 \<Rightarrow> uint128
     \<Rightarrow> uint8 \<Rightarrow> bytes32 \<Rightarrow> bytes32 \<Rightarrow> ledger \<Rightarrow> (revert + unit) \<times> ledger"
where
  "sendMessage vm msg_sender block_timestamp recipient contentCID keyCID sha256Hash iv nonce
       sigV sigR sigS =
     transaction (sendMessage_body vm msg_sender block_timestamp recipient contentCID keyCID
       sha256Hash iv nonce sigV sigR sigS)"

text \<open>\<^verbatim>\<open>setMinInterval\<close> and \<^verbatim>\<open>registerRSAPublicKey\<close> have no \<^verbatim>\<open>require\<close>.\<close>

definition setMinInterval_body :: "address \<Rightarrow> uint64 \<Rightarrow> ledger \<Rightarrow> (revert + unit) \<times> ledger" where
  "setMinInterval_body msg_sender newValue s =
     (let s1 = s\<lparr>minIntervalSeconds := newValue\<rparr>
      in (Inr (), s1\<lparr>events := events s1 @ [MinIntervalUpdated newValue]\<rparr>))"

definition setMinInterval :: "address \<Rightarrow> uint64 \<Rightarrow> ledger \<Rightarrow> (revert + unit) \<times> ledger" where
  "setMinInterval msg_sender newValue = transaction (setMinInterval_body msg_sender newValue)"

definition registerRSAPublicKey_body ::
  "address \<Rightarrow> uint256 \<Rightarrow> bytes32 \<Rightarrow> string \<Rightarrow> ledger \<Rightarrow> (revert + unit) \<times> ledger"
where
  "registerRSAPublicKey_body msg_sender block_timestamp rsaPubKeySha256 rsaPubKeyURI s =
     (let s1 = s\<lparr>keyRegistry := (keyRegistry s)(msg_sender :=
                  \<lparr>k_rsaPubKeySha256 = rsaPubKeySha256, k_rsaPubKeyURI = rsaPubKeyURI,
                   k_updatedAt = ucast block_timestamp\<rparr>)\<rparr>
      in (Inr (), s1\<lparr>events := events s1 @
            [KeyRegistered msg_sender rsaPubKeySha256 rsaPubKeyURI (ucast block_timestamp)]\<rparr>))"

definition registerRSAPublicKey ::
  "address \<Rightarrow> uint256 \<Rightarrow> bytes32 \<Rightarrow> string \<Rightarrow> ledger \<Rightarrow> (revert + unit) \<times> ledger"
where
  "registerRSAPublicKey msg_sender block_timestamp rsaPubKeySha256 rsaPubKeyURI =
     transaction (registerRSAPublicKey_body msg_sender block_timestamp rsaPubKeySha256 rsaPubKeyURI)"

text \<open>The getters.\<close>

definition getInboxIds :: "ledger \<Rightarrow> address \<Rightarrow> uint256 list" where
  "getInboxIds s user = inboxIndex s user"

definition getOutboxIds :: "ledger \<Rightarrow> address \<Rightarrow> uint256 list" where
  "getOutboxIds s user = outboxIndex s user"

definition isIVUsed :: "ledger \<Rightarrow> address \<Rightarrow> address \<Rightarrow> bytes12 \<Rightarrow> bool" where
  "isIVUsed s sender' recipient' iv' = usedIV s sender' recipient' iv'"

text \<open>
  The calls a ledger can receive, each with the \<^verbatim>\<open>msg.sender\<close> and the
  \<^verbatim>\<open>block.timestamp\<close> the chain gives it, then its arguments; and the ledger after
  a sequence of calls (a reverted call leaves it as it was).
\<close>

datatype call =
    SendMessage address uint256 address string string bytes32 bytes12 uint128 uint8 bytes32 bytes32
  | RegisterRSAPublicKey address uint256 bytes32 string
  | SetMinInterval address uint64

fun exec :: "evm \<Rightarrow> call \<Rightarrow> ledger \<Rightarrow> (revert + unit) \<times> ledger" where
  "exec vm (SendMessage msg_sender block_timestamp recipient contentCID keyCID sha256Hash iv nonce
              sigV sigR sigS) s =
     sendMessage vm msg_sender block_timestamp recipient contentCID keyCID sha256Hash iv nonce
       sigV sigR sigS s"
| "exec vm (RegisterRSAPublicKey msg_sender block_timestamp rsaPubKeySha256 rsaPubKeyURI) s =
     registerRSAPublicKey msg_sender block_timestamp rsaPubKeySha256 rsaPubKeyURI s"
| "exec vm (SetMinInterval msg_sender newValue) s = setMinInterval msg_sender newValue s"

fun run :: "evm \<Rightarrow> call list \<Rightarrow> ledger \<Rightarrow> ledger" where
  "run vm [] s = s"
| "run vm (c # cs) s = run vm cs (snd (exec vm c s))"

text \<open>The strings a call carries to the ledger in its arguments.\<close>

fun string_arguments :: "call \<Rightarrow> string list" where
  "string_arguments (SendMessage msg_sender block_timestamp recipient contentCID keyCID sha256Hash
      iv nonce sigV sigR sigS) = [contentCID, keyCID]"
| "string_arguments (RegisterRSAPublicKey msg_sender block_timestamp rsaPubKeySha256 rsaPubKeyURI) =
     [rsaPubKeyURI]"
| "string_arguments (SetMinInterval msg_sender newValue) = []"

text \<open>The nonces of the messages a sender has in the ledger, in the order of its outbox.\<close>

definition accepted_nonces :: "ledger \<Rightarrow> address \<Rightarrow> uint128 list" where
  "accepted_nonces s a = map (\<lambda>i. m_nonce (messages s i)) (getOutboxIds s a)"

section \<open>The client: Send\<close>

text \<open>
  \<^verbatim>\<open>onSend\<close>, lines 59 to 74: the client reads \<^verbatim>\<open>lastNonce(me)\<close>, adds one and
  calls \<^verbatim>\<open>sendMessage\<close> with the two locators it got from the content store, the
  digest, the IV, that nonce and a zero signature. The nonce is an unbounded integer in
  the client; the call cannot be encoded when it does not fit 128 bits.
\<close>

definition onSend_call ::
  "ledger \<Rightarrow> address \<Rightarrow> uint256 \<Rightarrow> address \<Rightarrow> string \<Rightarrow> string \<Rightarrow> bytes32 \<Rightarrow> bytes12 \<Rightarrow> call option"
where
  "onSend_call s me block_timestamp recipient contentCID keyCID sha iv =
     (let last = unat (lastNonce s me);
          nonce = last + 1
      in if nonce < 2 ^ 128
         then Some (SendMessage me block_timestamp recipient contentCID keyCID sha iv (of_nat nonce) 0 0 0)
         else None)"

section \<open>The client: Inbox\<close>

text \<open>
  The values the client reads back from its local store are JSON values. A thrown
  value is kept with its \<^verbatim>\<open>message\<close> property, when it has one. An \<^verbatim>\<open>await\<close>ed call
  either throws or gives its value, and a throw leaves the rest of the block undone.
\<close>

datatype json =
    JNull
  | JBool bool
  | JNum int
  | JStr string
  | JArr "json list"
  | JObj "(string \<times> json) list"

datatype thrown = Thrown "string option"

definition await :: "thrown + 'a \<Rightarrow> ('a \<Rightarrow> thrown + 'b) \<Rightarrow> thrown + 'b" where
  "await e f = (case e of Inl x \<Rightarrow> Inl x | Inr v \<Rightarrow> f v)"

text \<open>
  What the browser provides is a parameter of the model: the local storage, the JSON
  parser, the error a property access on \<^verbatim>\<open>null\<close> or a call of a missing method throws,
  the WebCrypto operations behind the functions of \<^verbatim>\<open>lib/crypto.ts\<close>, \<^verbatim>\<open>atob\<close>
  with the byte copy of \<^verbatim>\<open>base64ToBytes\<close>, \<^verbatim>\<open>parseInt(_, 16)\<close> stored into a byte,
  and \<^verbatim>\<open>String.toLowerCase\<close>.
\<close>

record ('rsa, 'aes) platform =
  getItem :: "string \<Rightarrow> string option"
  JSON_parse :: "string \<Rightarrow> thrown + json"
  TypeError :: thrown
  importRsaPrivateKeyJwk :: "json \<Rightarrow> thrown + 'rsa"
  rsaOaepDecrypt :: "'rsa \<Rightarrow> bytes \<Rightarrow> thrown + bytes"
  aesImportRaw :: "bytes \<Rightarrow> thrown + 'aes"
  aesDecrypt :: "bytes \<Rightarrow> 'aes \<Rightarrow> bytes \<Rightarrow> thrown + string"
  sha256Bytes :: "bytes \<Rightarrow> thrown + string"
  base64ToBytes :: "json option \<Rightarrow> thrown + bytes"
  parseInt16 :: "string \<Rightarrow> 8 word"
  toLowerCase :: "string \<Rightarrow> string"

text \<open>\<^verbatim>\<open>type Item\<close>. A field that is not set is \<^verbatim>\<open>undefined\<close>, here \<open>None\<close>.\<close>

record Item =
  it_id :: nat
  it_sender :: string
  it_recipient :: string
  it_timestamp :: nat
  it_sha256Hash :: string
  it_iv :: string
  it_contentCID :: "json option"
  it_keyCID :: "json option"
  it_plaintext :: "string option"
  it_note :: "string option"

text \<open>The item \<^verbatim>\<open>preloadFromLogs\<close> and the event handler build from a \<^verbatim>\<open>MessageSent\<close> log.\<close>

definition base_item :: "nat \<Rightarrow> string \<Rightarrow> string \<Rightarrow> nat \<Rightarrow> string \<Rightarrow> string \<Rightarrow> Item" where
  "base_item a_id a_sender a_recipient a_timestamp a_sha256Hash a_iv =
     \<lparr>it_id = a_id, it_sender = a_sender, it_recipient = a_recipient,
      it_timestamp = a_timestamp, it_sha256Hash = a_sha256Hash, it_iv = a_iv,
      it_contentCID = Some (JStr ''(off-chain)''), it_keyCID = Some (JStr ''(off-chain)''),
      it_plaintext = None, it_note = None\<rparr>"

text \<open>\<^verbatim>\<open>id.toString()\<close> of a non-negative bigint: its decimal digits.\<close>

fun toString :: "nat \<Rightarrow> string" where
  "toString n =
     (if n < 10 then [char_of (48 + n)] else toString (n div 10) @ [char_of (48 + n mod 10)])"

declare toString.simps [simp del]

text \<open>
  \<^verbatim>\<open>!x\<close> for a JSON value or \<^verbatim>\<open>undefined\<close>, and for a string or \<^verbatim>\<open>null\<close>; the
  read of a property that no prototype defines (it throws on \<^verbatim>\<open>null\<close>).
\<close>

fun falsy :: "json option \<Rightarrow> bool" where
  "falsy None = True"
| "falsy (Some JNull) = True"
| "falsy (Some (JBool b)) = (\<not> b)"
| "falsy (Some (JNum n)) = (n = 0)"
| "falsy (Some (JStr str)) = (str = [])"
| "falsy (Some (JArr xs)) = False"
| "falsy (Some (JObj kvs)) = False"

fun empty_or_null :: "string option \<Rightarrow> bool" where
  "empty_or_null None = True"
| "empty_or_null (Some str) = (str = [])"

fun property :: "thrown \<Rightarrow> json \<Rightarrow> string \<Rightarrow> thrown + json option" where
  "property te JNull name = Inl te"
| "property te (JObj kvs) name = Inr (map_of kvs name)"
| "property te (JBool b) name = Inr None"
| "property te (JNum n) name = Inr None"
| "property te (JStr str) name = Inr None"
| "property te (JArr xs) name = Inr None"

text \<open>\<^verbatim>\<open>ipfsGetJson\<close> of \<^verbatim>\<open>lib/ipfs.ts\<close>.\<close>

definition ipfsGetJson :: "('rsa, 'aes) platform \<Rightarrow> json option \<Rightarrow> thrown + json" where
  "ipfsGetJson pf uri =
     (if falsy uri then Inl (Thrown (Some ''empty URI''))
      else case uri of
        Some (JStr u) \<Rightarrow>
          if take 8 u = ''local://'' then
            (let raw = getItem pf u in
             if empty_or_null raw
             then Inl (Thrown (Some (''local URI not found in this browser: '' @ u)))
             else JSON_parse pf (the raw))
          else Inl (Thrown (Some ''Only local:// is implemented for this project demo''))
      | _ \<Rightarrow> Inl (TypeError pf))"

text \<open>\<^verbatim>\<open>hexToBytes\<close> of \<^verbatim>\<open>lib/crypto.ts\<close>; on a value that is no string, \<^verbatim>\<open>startsWith\<close> cannot be called.\<close>

definition hexToBytes :: "('rsa, 'aes) platform \<Rightarrow> json option \<Rightarrow> thrown + bytes" where
  "hexToBytes pf v =
     (case v of
        Some (JStr hex) \<Rightarrow>
          (let h = (if take 2 hex = ''0x'' then drop 2 hex else hex) in
           if length h mod 2 \<noteq> 0 then Inl (Thrown (Some ''hex length''))
           else Inr (map (\<lambda>i. parseInt16 pf (take 2 (drop (i * 2) h))) [0..<length h div 2]))
      | _ \<Rightarrow> Inl (TypeError pf))"

text \<open>
  \<^verbatim>\<open>tryDecrypt\<close>: the statements of the \<^verbatim>\<open>try\<close> block first, then the whole function
  with the two early returns before the block and the \<^verbatim>\<open>catch\<close>. What is thrown before
  the block (by \<^verbatim>\<open>JSON.parse(mapRaw)\<close> or by destructuring \<^verbatim>\<open>null\<close>) leaves the function.
\<close>

definition tryDecrypt_try ::
  "('rsa, 'aes) platform \<Rightarrow> Item \<Rightarrow> json option \<Rightarrow> json option \<Rightarrow> string \<Rightarrow> thrown + Item"
where
  "tryDecrypt_try pf it contentCID keyCID privRaw =
     await (JSON_parse pf privRaw) (\<lambda>jwk.
     await (importRsaPrivateKeyJwk pf jwk) (\<lambda>priv.
     await (ipfsGetJson pf keyCID) (\<lambda>keyJson.
     await (property (TypeError pf) keyJson ''encrypted_key_b64'') (\<lambda>encrypted_key_b64.
       if encrypted_key_b64 = None
       then Inr (it\<lparr>it_contentCID := contentCID, it_keyCID := keyCID,
              it_note := Some ''No encrypted data key (message sent when you had no public key).''\<rparr>)
       else
     await (base64ToBytes pf encrypted_key_b64) (\<lambda>encKey.
     await (rsaOaepDecrypt pf priv encKey) (\<lambda>rawKey.
     await (aesImportRaw pf rawKey) (\<lambda>aesKey.
     await (ipfsGetJson pf contentCID) (\<lambda>contentJson.
     await (property (TypeError pf) contentJson ''iv'') (\<lambda>iv_hex.
     await (hexToBytes pf iv_hex) (\<lambda>iv.
     await (property (TypeError pf) contentJson ''ciphertext_b64'') (\<lambda>ciphertext_b64.
     await (base64ToBytes pf ciphertext_b64) (\<lambda>ct.
     await (sha256Bytes pf ct) (\<lambda>sha.
       if toLowerCase pf sha \<noteq> toLowerCase pf (it_sha256Hash it)
       then Inr (it\<lparr>it_contentCID := contentCID, it_keyCID := keyCID,
              it_note := Some ''Integrity mismatch (on-chain hash != ciphertext hash).''\<rparr>)
       else
     await (aesDecrypt pf ct aesKey iv) (\<lambda>plaintext.
       Inr (it\<lparr>it_contentCID := contentCID, it_keyCID := keyCID,
              it_plaintext := Some plaintext\<rparr>)))))))))))))))"

definition tryDecrypt :: "('rsa, 'aes) platform \<Rightarrow> string \<Rightarrow> Item \<Rightarrow> thrown + Item" where
  "tryDecrypt pf me it =
     (let mapRaw = getItem pf (''msgmap:'' @ toString (it_id it)) in
      if empty_or_null mapRaw
      then Inr (it\<lparr>it_note := Some
             ''Off-chain CIDs unknown on this device (ask sender or use shared backend/IPFS).''\<rparr>)
      else
        await (JSON_parse pf (the mapRaw)) (\<lambda>m.
        await (property (TypeError pf) m ''contentCID'') (\<lambda>contentCID.
        await (property (TypeError pf) m ''keyCID'') (\<lambda>keyCID.
          let privRaw = getItem pf (''rsa:priv:'' @ me) in
          if empty_or_null privRaw
          then Inr (it\<lparr>it_contentCID := contentCID, it_keyCID := keyCID,
                 it_note := Some ''Private JWK not imported for this address.''\<rparr>)
          else
            (case tryDecrypt_try pf it contentCID keyCID (the privRaw) of
               Inr r \<Rightarrow> Inr r
             | Inl (Thrown message) \<Rightarrow>
                 Inr (it\<lparr>it_contentCID := contentCID, it_keyCID := keyCID,
                   it_note := Some (case message of Some text \<Rightarrow> text | None \<Rightarrow> ''Decrypt failed'')\<rparr>))))))"

text \<open>
  The loop of the effect, line 111: the items are decrypted one after the other, and a
  throw of \<^verbatim>\<open>tryDecrypt\<close> leaves the loop.
\<close>

fun enrich :: "('rsa, 'aes) platform \<Rightarrow> string \<Rightarrow> Item list \<Rightarrow> thrown + Item list" where
  "enrich pf me [] = Inr []"
| "enrich pf me (it # base) =
     await (tryDecrypt pf me it) (\<lambda>r. await (enrich pf me base) (\<lambda>rs. Inr (r # rs)))"

text \<open>
  The view, line 155: \<^verbatim>\<open>{it.note && <div className="note">{it.note}</div>}\<close>. The note of
  an item is shown when it is set and is not the empty string.
\<close>

definition note_shown :: "Item \<Rightarrow> string option" where
  "note_shown it = (if empty_or_null (it_note it) then None else it_note it)"

text \<open>
  The acceptance time of the last message a sender has in the ledger (0 when it has none),
  and whether a call is a call of \<^verbatim>\<open>setMinInterval\<close>.
\<close>

definition last_accepted_at :: "ledger \<Rightarrow> address \<Rightarrow> uint64" where
  "last_accepted_at s a =
     (if getOutboxIds s a = [] then 0 else m_timestamp (messages s (last (getOutboxIds s a))))"

fun sets_interval :: "call \<Rightarrow> bool" where
  "sets_interval (SetMinInterval msg_sender newValue) = True"
| "sets_interval (SendMessage msg_sender block_timestamp recipient contentCID keyCID sha256Hash
      iv nonce sigV sigR sigS) = False"
| "sets_interval (RegisterRSAPublicKey msg_sender block_timestamp rsaPubKeySha256 rsaPubKeyURI) = False"

section \<open>A concrete machine and a concrete scenario\<close>

text \<open>
  For evaluating the model on examples: a machine whose hash is the length of its input
  and whose recovered signer is read off the \<open>r\<close> component of the signature; and the
  ledger after account 1 has sent its first message to account 2 at time 100.
\<close>

definition toy_evm :: evm where
  "toy_evm = \<lparr>keccak256 = (\<lambda>bs. of_nat (length bs)), ecrecover = (\<lambda>h v r s. ucast r)\<rparr>"

definition first_sent :: ledger where
  "first_sent = snd (sendMessage toy_evm 1 100 2 ''local://c1'' ''local://k1'' 3 7 1 0 0 0 deployed)"

text \<open>
  A browser for evaluating the inbox on examples. Its local store holds the correlation
  records of messages 1 and 3, a record of message 4 that does not parse, a record of
  message 5 whose locators are not in the store, the private key of the account \<open>0xme\<close>, one key envelope
  and one content envelope; the stored texts are named, and \<^verbatim>\<open>JSON.parse\<close> is given on
  those names. The unwrapped key is the wrapped one, the digest of every ciphertext is
  \<open>0xab\<close>, and the cipher opens \<open>[1]\<close> under the key \<open>[1]\<close> only.
\<close>

definition toy_platform :: "(unit, bytes) platform" where
  "toy_platform =
     \<lparr>getItem = map_of
        [(''msgmap:1'', ''record-1''), (''msgmap:3'', ''record-1''), (''msgmap:4'', ''garbled''),
         (''msgmap:5'', ''record-5''),
         (''rsa:priv:0xme'', ''private-jwk''),
         (''local://k'', ''key-envelope''), (''local://c'', ''content-envelope'')],
      JSON_parse = (\<lambda>raw.
        if raw = ''record-1''
          then Inr (JObj [(''contentCID'', JStr ''local://c''), (''keyCID'', JStr ''local://k'')])
        else if raw = ''record-5''
          then Inr (JObj [(''contentCID'', JStr ''local://gone''), (''keyCID'', JStr ''local://gone'')])
        else if raw = ''private-jwk'' then Inr (JObj [(''kty'', JStr ''RSA'')])
        else if raw = ''key-envelope'' then Inr (JObj [(''encrypted_key_b64'', JStr ''AQ=='')])
        else if raw = ''content-envelope''
          then Inr (JObj [(''iv'', JStr ''0x0102''), (''ciphertext_b64'', JStr ''AQ=='')])
        else Inl (Thrown (Some ''Unexpected token''))),
      TypeError = Thrown (Some ''Cannot read properties''),
      importRsaPrivateKeyJwk = (\<lambda>jwk. Inr ()),
      rsaOaepDecrypt = (\<lambda>priv encKey. Inr encKey),
      aesImportRaw = (\<lambda>raw. Inr raw),
      aesDecrypt = (\<lambda>ct key iv. if ct = [1] \<and> key = [1] then Inr ''hello'' else Inl (Thrown None)),
      sha256Bytes = (\<lambda>ct. Inr ''0xAB''),
      base64ToBytes = (\<lambda>b64. if b64 = Some (JStr ''AQ=='') then Inr [1] else Inl (Thrown None)),
      parseInt16 = (\<lambda>digits. 0),
      toLowerCase = (\<lambda>str. if str = ''0xAB'' then ''0xab'' else str)\<rparr>"

definition toy_inbox :: "Item list" where
  "toy_inbox =
     [base_item 3 ''0xa1'' ''0xme'' 120 ''0xcd'' ''0x0102'',
      base_item 2 ''0xa1'' ''0xme'' 110 ''0xab'' ''0x0102'',
      base_item 1 ''0xa1'' ''0xme'' 100 ''0xab'' ''0x0102'']"

text \<open>
  The correlation record of an item can be read: there is none, or it parses to a value
  that is not \<^verbatim>\<open>null\<close>.
\<close>

definition correlation_readable :: "('rsa, 'aes) platform \<Rightarrow> Item \<Rightarrow> bool" where
  "correlation_readable pf it =
     (let mapRaw = getItem pf (''msgmap:'' @ toString (it_id it)) in
      if empty_or_null mapRaw then True
      else case JSON_parse pf (the mapRaw) of Inl e \<Rightarrow> False | Inr m \<Rightarrow> m \<noteq> JNull)"

section \<open>Invariants of the ledger\<close>

text \<open>
  Every id in an outbox has been allocated (it is below \<^verbatim>\<open>nextMessageId\<close>), the
  nonces of the messages in the outbox of a sender are 1, 2, ... up to its \<^verbatim>\<open>lastNonce\<close>,
  and \<^verbatim>\<open>lastSentAt\<close> of a sender is the acceptance time of its last message.
\<close>

definition ids_allocated :: "ledger \<Rightarrow> bool" where
  "ids_allocated s = (\<forall>a. \<forall>i \<in> set (outboxIndex s a). i < nextMessageId s)"

definition nonces_in_sequence :: "ledger \<Rightarrow> bool" where
  "nonces_in_sequence s = (\<forall>a. accepted_nonces s a = map of_nat [1..<Suc (unat (lastNonce s a))])"

definition timestamps_recorded :: "ledger \<Rightarrow> bool" where
  "timestamps_recorded s = (\<forall>a. lastSentAt s a = last_accepted_at s a)"


section \<open>Properties of the ledger\<close>


lemma transaction_failed: "fst (transaction body s) = Inl e \<Longrightarrow> snd (transaction body s) = s"
  by (auto simp: transaction_def split: prod.splits sum.splits)

lemma transaction_fst: "fst (transaction body s) = fst (body s)"
  by (auto simp: transaction_def split: prod.splits sum.splits)

lemma transaction_ok: "fst (body s) = Inr v \<Longrightarrow> snd (transaction body s) = snd (body s)"
  by (auto simp: transaction_def split: prod.splits sum.splits)

lemma sendMessage_accept_iff:
  "fst (sendMessage vm a ts r c k h iv n v sr ss s) = Inr () \<longleftrightarrow>
     r \<noteq> 0 \<and> h \<noteq> 0 \<and> iv \<noteq> 0 \<and> lastSentAt s a \<le> ucast ts
     \<and> minIntervalSeconds s \<le> ucast ts - lastSentAt s a
     \<and> \<not> usedIV s a r iv \<and> lastNonce s a \<noteq> - 1 \<and> n = lastNonce s a + 1
     \<and> ((v = 0 \<and> sr = 0 \<and> ss = 0) \<or>
          ecrecover vm (ethMsgHash_of vm a r (ucast ts) h iv (keccak256 vm (bytes_of c))
             (keccak256 vm (bytes_of k)) n) v sr ss = a)
     \<and> nextMessageId s \<noteq> - 1"
  by (auto simp: sendMessage_def transaction_fst sendMessage_body_def Let_def not_less)

lemma sendMessage_accept_state:
  assumes "fst (sendMessage vm a ts r c k h iv n v sr ss s) = Inr ()"
  shows "snd (sendMessage vm a ts r c k h iv n v sr ss s) =
     s\<lparr>lastSentAt := (lastSentAt s)(a := ucast ts),
       usedIV := (usedIV s)(a := (usedIV s a)(r := (usedIV s a r)(iv := True))),
       lastNonce := (lastNonce s)(a := n),
       nextMessageId := nextMessageId s + 1,
       messages := (messages s)(nextMessageId s :=
          \<lparr>m_id = nextMessageId s, m_sender = a, m_recipient = r,
           m_timestamp = ucast ts, m_sha256Hash = h, m_iv = iv,
           m_contentCidHash = keccak256 vm (bytes_of c), m_keyCidHash = keccak256 vm (bytes_of k),
           m_nonce = n, m_sigR = sr, m_sigS = ss, m_sigV = v\<rparr>),
       inboxIndex := (inboxIndex s)(r := inboxIndex s r @ [nextMessageId s]),
       outboxIndex := (outboxIndex s)(a := outboxIndex s a @ [nextMessageId s]),
       events := events s @ [MessageSent (nextMessageId s) a r (ucast ts) h iv
          (keccak256 vm (bytes_of c)) (keccak256 vm (bytes_of k)) n]\<rparr>"
proof -
  have b: "fst (sendMessage_body vm a ts r c k h iv n v sr ss s) = Inr ()"
    using assms by (simp add: sendMessage_def transaction_fst)
  have conds: "r \<noteq> 0" "h \<noteq> 0" "iv \<noteq> 0" "\<not> ucast ts < lastSentAt s a"
      "minIntervalSeconds s \<le> ucast ts - lastSentAt s a" "\<not> usedIV s a r iv"
      "lastNonce s a \<noteq> - 1" "n = lastNonce s a + 1" "nextMessageId s \<noteq> - 1"
    and sig: "\<not> ((v \<noteq> 0 \<or> sr \<noteq> 0 \<or> ss \<noteq> 0)
      \<and> \<not> (ecrecover vm (ethMsgHash_of vm a r (ucast ts) h iv (keccak256 vm (bytes_of c))
             (keccak256 vm (bytes_of k)) n) v sr ss = a))"
    using assms unfolding sendMessage_accept_iff by (simp_all add: not_less) blast
  have "snd (sendMessage vm a ts r c k h iv n v sr ss s) = snd (sendMessage_body vm a ts r c k h iv n v sr ss s)"
    unfolding sendMessage_def using b by (rule transaction_ok)
  also have "\<dots> = s\<lparr>lastSentAt := (lastSentAt s)(a := ucast ts),
       usedIV := (usedIV s)(a := (usedIV s a)(r := (usedIV s a r)(iv := True))),
       lastNonce := (lastNonce s)(a := n),
       nextMessageId := nextMessageId s + 1,
       messages := (messages s)(nextMessageId s :=
          \<lparr>m_id = nextMessageId s, m_sender = a, m_recipient = r,
           m_timestamp = ucast ts, m_sha256Hash = h, m_iv = iv,
           m_contentCidHash = keccak256 vm (bytes_of c), m_keyCidHash = keccak256 vm (bytes_of k),
           m_nonce = n, m_sigR = sr, m_sigS = ss, m_sigV = v\<rparr>),
       inboxIndex := (inboxIndex s)(r := inboxIndex s r @ [nextMessageId s]),
       outboxIndex := (outboxIndex s)(a := outboxIndex s a @ [nextMessageId s]),
       events := events s @ [MessageSent (nextMessageId s) a r (ucast ts) h iv
          (keccak256 vm (bytes_of c)) (keccak256 vm (bytes_of k)) n]\<rparr>"
  proof -
    consider (unsigned) "v = 0" "sr = 0" "ss = 0"
      | (signed) "ecrecover vm (ethMsgHash_of vm a r (ucast ts) h iv (keccak256 vm (bytes_of c))
             (keccak256 vm (bytes_of k)) n) v sr ss = a"
      using sig by blast
    then show ?thesis
    proof cases
      case unsigned
      then show ?thesis
        unfolding sendMessage_body_def Let_def
        using conds(1-7,9) by (simp add: conds(8) [symmetric])
    next
      case signed
      then show ?thesis
        unfolding sendMessage_body_def Let_def
        using conds(1-7,9) by (simp add: conds(8) [symmetric])
    qed
  qed
  finally show ?thesis .
qed

lemma sendMessage_failed:
  "fst (sendMessage vm a ts r c k h iv n v sr ss s) = Inl e \<Longrightarrow>
   snd (sendMessage vm a ts r c k h iv n v sr ss s) = s"
  unfolding sendMessage_def by (rule transaction_failed)

lemma sendMessage_cases:
  "fst (sendMessage vm a ts r c k h iv n v sr ss s) = Inr () \<or>
   (\<exists>e. fst (sendMessage vm a ts r c k h iv n v sr ss s) = Inl e)"
  by (cases "fst (sendMessage vm a ts r c k h iv n v sr ss s)") auto

text \<open>The checks of \<^verbatim>\<open>sendMessage\<close> in their order: the first that fails decides the outcome.\<close>

lemma sendMessage_kinds:
  "r = 0 \<Longrightarrow> fst (sendMessage vm a ts r c k h iv n v sr ss s) = Inl RecipientZero"
  "r \<noteq> 0 \<Longrightarrow> h = 0 \<Longrightarrow> fst (sendMessage vm a ts r c k h iv n v sr ss s) = Inl Sha256HashZero"
  "r \<noteq> 0 \<Longrightarrow> h \<noteq> 0 \<Longrightarrow> iv = 0 \<Longrightarrow>
     fst (sendMessage vm a ts r c k h iv n v sr ss s) = Inl IvZero"
  "r \<noteq> 0 \<Longrightarrow> h \<noteq> 0 \<Longrightarrow> iv \<noteq> 0 \<Longrightarrow> ucast ts < lastSentAt s a \<Longrightarrow>
     fst (sendMessage vm a ts r c k h iv n v sr ss s) = Inl ArithmeticPanic"
  "r \<noteq> 0 \<Longrightarrow> h \<noteq> 0 \<Longrightarrow> iv \<noteq> 0 \<Longrightarrow> lastSentAt s a \<le> ucast ts \<Longrightarrow>
     \<not> minIntervalSeconds s \<le> ucast ts - lastSentAt s a \<Longrightarrow>
     fst (sendMessage vm a ts r c k h iv n v sr ss s) = Inl RateLimited"
  "r \<noteq> 0 \<Longrightarrow> h \<noteq> 0 \<Longrightarrow> iv \<noteq> 0 \<Longrightarrow> lastSentAt s a \<le> ucast ts \<Longrightarrow>
     minIntervalSeconds s \<le> ucast ts - lastSentAt s a \<Longrightarrow> usedIV s a r iv \<Longrightarrow>
     fst (sendMessage vm a ts r c k h iv n v sr ss s) = Inl IVAlreadyUsed"
  "r \<noteq> 0 \<Longrightarrow> h \<noteq> 0 \<Longrightarrow> iv \<noteq> 0 \<Longrightarrow> lastSentAt s a \<le> ucast ts \<Longrightarrow>
     minIntervalSeconds s \<le> ucast ts - lastSentAt s a \<Longrightarrow> \<not> usedIV s a r iv \<Longrightarrow>
     lastNonce s a = - 1 \<Longrightarrow>
     fst (sendMessage vm a ts r c k h iv n v sr ss s) = Inl ArithmeticPanic"
  "r \<noteq> 0 \<Longrightarrow> h \<noteq> 0 \<Longrightarrow> iv \<noteq> 0 \<Longrightarrow> lastSentAt s a \<le> ucast ts \<Longrightarrow>
     minIntervalSeconds s \<le> ucast ts - lastSentAt s a \<Longrightarrow> \<not> usedIV s a r iv \<Longrightarrow>
     lastNonce s a \<noteq> - 1 \<Longrightarrow> n \<noteq> lastNonce s a + 1 \<Longrightarrow>
     fst (sendMessage vm a ts r c k h iv n v sr ss s) = Inl BadNonce"
  by (simp_all add: sendMessage_def transaction_fst sendMessage_body_def Let_def not_less)

lemma registerRSAPublicKey_eq:
  "registerRSAPublicKey a ts d uri s =
     (Inr (), s\<lparr>keyRegistry := (keyRegistry s)(a :=
                  \<lparr>k_rsaPubKeySha256 = d, k_rsaPubKeyURI = uri, k_updatedAt = ucast ts\<rparr>),
               events := events s @ [KeyRegistered a d uri (ucast ts)]\<rparr>)"
  by (simp add: registerRSAPublicKey_def registerRSAPublicKey_body_def transaction_def Let_def)

lemma setMinInterval_eq:
  "setMinInterval a v s =
     (Inr (), s\<lparr>minIntervalSeconds := v, events := events s @ [MinIntervalUpdated v]\<rparr>)"
  by (simp add: setMinInterval_def setMinInterval_body_def transaction_def Let_def)

lemma inv_deployed: "ids_allocated deployed \<and> nonces_in_sequence deployed"
  by (simp add: ids_allocated_def nonces_in_sequence_def deployed_def accepted_nonces_def getOutboxIds_def)

lemma word_succ_neq0: "(w :: 'a::len word) \<noteq> - 1 \<Longrightarrow> 1 + w \<noteq> 0"
  by (metis add.commute add_eq_0_iff)

lemma word_succ_unat: "(w :: 'a::len word) \<noteq> - 1 \<Longrightarrow> unat (w + 1) = Suc (unat w)"
  using unatSuc [of w] word_succ_neq0 [of w] by (simp add: add.commute)

lemma word_less_succ: "(w :: 'a::len word) \<noteq> - 1 \<Longrightarrow> i \<le> w \<Longrightarrow> i < w + 1"
  by (simp add: word_less_nat_alt word_le_nat_alt word_succ_unat)

lemma inv_sendMessage:
  assumes I: "ids_allocated s" "nonces_in_sequence s"
  shows "ids_allocated (snd (sendMessage vm a ts r c k h iv n v sr ss s))
       \<and> nonces_in_sequence (snd (sendMessage vm a ts r c k h iv n v sr ss s))"
proof (cases "fst (sendMessage vm a ts r c k h iv n v sr ss s)")
  case (Inl e)
  then show ?thesis using I by (simp add: sendMessage_failed)
next
  case (Inr u)
  then have ok: "fst (sendMessage vm a ts r c k h iv n v sr ss s) = Inr ()" by simp
  from ok have nmax: "lastNonce s a \<noteq> - 1" and n: "n = lastNonce s a + 1" and idmax: "nextMessageId s \<noteq> - 1"
    by (simp_all add: sendMessage_accept_iff)
  note st = sendMessage_accept_state [OF ok]
  have fresh: "\<And>b i. i \<in> set (outboxIndex s b) \<Longrightarrow> i < nextMessageId s"
    using I(1) by (auto simp: ids_allocated_def)
  have fresh': "\<And>b i. i \<in> set (outboxIndex s b) \<Longrightarrow> i < nextMessageId s + 1"
    using fresh idmax by (simp add: word_less_succ less_imp_le)
  have lt: "nextMessageId s < nextMessageId s + 1"
    using idmax by (simp add: word_less_succ)
  have 1: "ids_allocated (snd (sendMessage vm a ts r c k h iv n v sr ss s))"
    unfolding st ids_allocated_def using fresh' lt
    by auto
  have old: "\<And>b. map (\<lambda>i. m_nonce (messages s i)) (outboxIndex s b) = map of_nat [1..<Suc (unat (lastNonce s b))]"
    using I(2) by (simp add: nonces_in_sequence_def accepted_nonces_def getOutboxIds_def)
  let ?s' = "snd (sendMessage vm a ts r c k h iv n v sr ss s)"
  have out': "outboxIndex ?s' = (outboxIndex s)(a := outboxIndex s a @ [nextMessageId s])"
    and ln': "lastNonce ?s' = (lastNonce s)(a := n)"
    and nonce_new: "m_nonce (messages ?s' (nextMessageId s)) = n"
    and msgs_old: "\<And>i. i \<noteq> nextMessageId s \<Longrightarrow> messages ?s' i = messages s i"
    unfolding st by simp_all
  have keep: "map (\<lambda>i. m_nonce (messages ?s' i)) (outboxIndex s b)
                = map (\<lambda>i. m_nonce (messages s i)) (outboxIndex s b)" for b
  proof (rule map_cong [OF refl])
    fix i assume "i \<in> set (outboxIndex s b)"
    then have "i \<noteq> nextMessageId s" using fresh by blast
    then show "m_nonce (messages ?s' i) = m_nonce (messages s i)" by (simp add: msgs_old)
  qed
  have seq: "accepted_nonces ?s' b = map of_nat [1..<Suc (unat (lastNonce ?s' b))]" for b
  proof (cases "b = a")
    case True
    have "accepted_nonces ?s' a = map (\<lambda>i. m_nonce (messages s i)) (outboxIndex s a) @ [n]"
      by (simp add: accepted_nonces_def getOutboxIds_def out' keep nonce_new)
    also have "\<dots> = map of_nat [1..<Suc (unat (lastNonce s a))] @ [of_nat (Suc (unat (lastNonce s a)))]"
      by (simp only: old n) simp
    also have "\<dots> = map of_nat [1..<Suc (Suc (unat (lastNonce s a)))]"
      by (simp del: upt_Suc add: upt_Suc_append)
    also have "Suc (unat (lastNonce s a)) = unat (lastNonce ?s' a)"
      by (simp only: ln' fun_upd_same) (simp add: n word_succ_unat nmax)
    finally show ?thesis using True by simp
  next
    case False
    then show ?thesis
      by (simp add: accepted_nonces_def getOutboxIds_def out' ln' keep old)
  qed
  have 2: "nonces_in_sequence ?s'"
    unfolding nonces_in_sequence_def using seq by blast
  show ?thesis using 1 2 by simp
qed

lemma inv_exec:
  assumes "ids_allocated s" "nonces_in_sequence s"
  shows "ids_allocated (snd (exec vm c s)) \<and> nonces_in_sequence (snd (exec vm c s))"
proof (cases c)
  case (SendMessage a ts r cc k h iv n v sr ss)
  then show ?thesis using inv_sendMessage [OF assms] by simp
next
  case (RegisterRSAPublicKey a ts d uri)
  then show ?thesis using assms
    by (simp add: registerRSAPublicKey_eq ids_allocated_def nonces_in_sequence_def
        accepted_nonces_def getOutboxIds_def)
next
  case (SetMinInterval a v)
  then show ?thesis using assms
    by (simp add: setMinInterval_eq ids_allocated_def nonces_in_sequence_def
        accepted_nonces_def getOutboxIds_def)
qed

lemma inv_run:
  "ids_allocated s \<Longrightarrow> nonces_in_sequence s \<Longrightarrow>
   ids_allocated (run vm cs s) \<and> nonces_in_sequence (run vm cs s)"
proof (induction cs arbitrary: s)
  case Nil
  then show ?case by simp
next
  case (Cons c cs)
  then show ?case using inv_exec [of s vm c] by simp
qed

lemma nonces_reachable:
  "accepted_nonces (run vm cs deployed) a = map of_nat [1..<Suc (unat (lastNonce (run vm cs deployed) a))]"
  using inv_run [of deployed vm cs] inv_deployed by (simp add: nonces_in_sequence_def)


lemma ts_deployed: "timestamps_recorded deployed"
  by (simp add: timestamps_recorded_def last_accepted_at_def getOutboxIds_def deployed_def)

lemma ts_sendMessage:
  assumes I: "ids_allocated s" "timestamps_recorded s"
  shows "timestamps_recorded (snd (sendMessage vm a ts r c k h iv n v sr ss s))"
proof (cases "fst (sendMessage vm a ts r c k h iv n v sr ss s)")
  case (Inl e)
  then show ?thesis using I by (simp add: sendMessage_failed)
next
  case (Inr u)
  then have ok: "fst (sendMessage vm a ts r c k h iv n v sr ss s) = Inr ()" by simp
  note st = sendMessage_accept_state [OF ok]
  let ?s' = "snd (sendMessage vm a ts r c k h iv n v sr ss s)"
  have out': "outboxIndex ?s' = (outboxIndex s)(a := outboxIndex s a @ [nextMessageId s])"
    and sent': "lastSentAt ?s' = (lastSentAt s)(a := ucast ts)"
    and time_new: "m_timestamp (messages ?s' (nextMessageId s)) = ucast ts"
    and msgs_old: "\<And>i. i \<noteq> nextMessageId s \<Longrightarrow> messages ?s' i = messages s i"
    unfolding st by simp_all
  have fresh: "\<And>b i. i \<in> set (outboxIndex s b) \<Longrightarrow> i \<noteq> nextMessageId s"
    using I(1) by (auto simp: ids_allocated_def)
  have old: "\<And>b. lastSentAt s b = last_accepted_at s b"
    using I(2) by (simp add: timestamps_recorded_def)
  have "lastSentAt ?s' b = last_accepted_at ?s' b" for b
  proof (cases "b = a")
    case True
    then show ?thesis
      by (simp add: last_accepted_at_def getOutboxIds_def out' sent' time_new)
  next
    case False
    show ?thesis
    proof (cases "outboxIndex s b = []")
      case True
      then show ?thesis using False old [of b]
        by (simp add: last_accepted_at_def getOutboxIds_def out' sent')
    next
      case nonempty: False
      then have "last (outboxIndex s b) \<noteq> nextMessageId s"
        using fresh [of "last (outboxIndex s b)" b] by simp
      then show ?thesis using False nonempty old [of b]
        by (simp add: last_accepted_at_def getOutboxIds_def out' sent' msgs_old)
    qed
  qed
  then show ?thesis by (simp add: timestamps_recorded_def)
qed

lemma ts_exec:
  assumes "ids_allocated s" "timestamps_recorded s"
  shows "timestamps_recorded (snd (exec vm c s))"
proof (cases c)
  case (SendMessage a ts r cc k h iv n v sr ss)
  then show ?thesis using ts_sendMessage [OF assms] by simp
next
  case (RegisterRSAPublicKey a ts d uri)
  then show ?thesis using assms(2)
    by (simp add: registerRSAPublicKey_eq timestamps_recorded_def last_accepted_at_def getOutboxIds_def)
next
  case (SetMinInterval a v)
  then show ?thesis using assms(2)
    by (simp add: setMinInterval_eq timestamps_recorded_def last_accepted_at_def getOutboxIds_def)
qed

lemma ts_run:
  "ids_allocated s \<Longrightarrow> nonces_in_sequence s \<Longrightarrow> timestamps_recorded s \<Longrightarrow>
   timestamps_recorded (run vm cs s)"
proof (induction cs arbitrary: s)
  case Nil
  then show ?case by simp
next
  case (Cons c cs)
  then show ?case using inv_exec [of s vm c] ts_exec [of s vm c] by simp
qed

lemma lastSentAt_reachable:
  "lastSentAt (run vm cs deployed) a = last_accepted_at (run vm cs deployed) a"
  using ts_run [of deployed vm cs] inv_deployed ts_deployed by (simp add: timestamps_recorded_def)

lemma lastSentAt_other_sender:
  assumes "b \<noteq> a"
  shows "lastSentAt (snd (sendMessage vm b ts r c k h iv n v sr ss s)) a = lastSentAt s a"
proof (cases "fst (sendMessage vm b ts r c k h iv n v sr ss s)")
  case (Inl e)
  then show ?thesis by (simp add: sendMessage_failed)
next
  case (Inr u)
  then have ok: "fst (sendMessage vm b ts r c k h iv n v sr ss s) = Inr ()" by simp
  show ?thesis using assms by (simp add: sendMessage_accept_state [OF ok])
qed

lemma minIntervalSeconds_sendMessage:
  "minIntervalSeconds (snd (sendMessage vm a ts r c k h iv n v sr ss s)) = minIntervalSeconds s"
proof (cases "fst (sendMessage vm a ts r c k h iv n v sr ss s)")
  case (Inl e)
  then show ?thesis by (simp add: sendMessage_failed)
next
  case (Inr u)
  then have ok: "fst (sendMessage vm a ts r c k h iv n v sr ss s) = Inr ()" by simp
  show ?thesis by (simp add: sendMessage_accept_state [OF ok])
qed

lemma minIntervalSeconds_exec:
  "\<not> sets_interval c \<Longrightarrow> minIntervalSeconds (snd (exec vm c s)) = minIntervalSeconds s"
  by (cases c) (simp_all add: minIntervalSeconds_sendMessage registerRSAPublicKey_eq)

lemma minIntervalSeconds_run:
  "\<not> list_ex sets_interval cs \<Longrightarrow> minIntervalSeconds (run vm cs s) = minIntervalSeconds s"
  by (induction cs arbitrary: s) (simp_all add: minIntervalSeconds_exec)

lemma first_sent_accepted:
  "fst (sendMessage toy_evm 1 100 2 ''local://c1'' ''local://k1'' 3 7 1 0 0 0 deployed) = Inr ()"
  by (simp add: sendMessage_accept_iff deployed_def)

lemma first_sent_eq:
  "first_sent = deployed\<lparr>lastSentAt := (lastSentAt deployed)(1 := 100),
       usedIV := (usedIV deployed)(1 := (usedIV deployed 1)(2 := (usedIV deployed 1 2)(7 := True))),
       lastNonce := (lastNonce deployed)(1 := 1),
       nextMessageId := 2,
       messages := (messages deployed)(1 :=
          \<lparr>m_id = 1, m_sender = 1, m_recipient = 2,
           m_timestamp = 100, m_sha256Hash = 3, m_iv = 7,
           m_contentCidHash = 10, m_keyCidHash = 10,
           m_nonce = 1, m_sigR = 0, m_sigS = 0, m_sigV = 0\<rparr>),
       inboxIndex := (inboxIndex deployed)(2 := [1]),
       outboxIndex := (outboxIndex deployed)(1 := [1]),
       events := [MessageSent 1 1 2 100 3 7 10 10 1]\<rparr>"
  unfolding first_sent_def sendMessage_accept_state [OF first_sent_accepted]
  by (simp add: deployed_def toy_evm_def bytes_of_def)

lemma first_sent_fields:
  "lastSentAt first_sent 1 = 100" "lastNonce first_sent 1 = 1" "usedIV first_sent 1 2 7"
  "minIntervalSeconds first_sent = 10" "nextMessageId first_sent = 2"
  "\<not> usedIV first_sent 1 2 8"
  by (simp_all add: first_sent_eq deployed_def)

subsection \<open>Atomicity of a submission\<close>

text \<open>
  The body of \<^verbatim>\<open>sendMessage\<close> does write before its later checks: a submission with a
  wrong nonce stops at \<^verbatim>\<open>require(nonce == lastNonce[msg.sender] + 1)\<close> with the rate-limit
  timestamp and the IV marking already written. Only the revert of the transaction undoes them.
\<close>

lemma sendMessage_body_writes_before_failing:
  "fst (sendMessage_body toy_evm 1 100 2 ''c'' ''k'' 3 7 5 0 0 0 deployed) = Inl BadNonce
   \<and> lastSentAt (snd (sendMessage_body toy_evm 1 100 2 ''c'' ''k'' 3 7 5 0 0 0 deployed)) 1 = 100
   \<and> usedIV (snd (sendMessage_body toy_evm 1 100 2 ''c'' ''k'' 3 7 5 0 0 0 deployed)) 1 2 7
   \<and> lastSentAt deployed 1 = 0 \<and> \<not> usedIV deployed 1 2 7"
  by (simp add: sendMessage_body_def deployed_def Let_def)

text \<open>
  Claim C4. A submission that fails, with whichever revert or panic, leaves the whole
  ledger as it was before the call: the rate-limit timestamps, the nonce counters, the IV
  markings, the messages, the next id, the inbox and outbox indices (and the key registry,
  the interval and the event log).
\<close>

theorem sendMessage_atomic:
  assumes "fst (sendMessage vm a ts r c k h iv n v sr ss s) = Inl e"
  shows "snd (sendMessage vm a ts r c k h iv n v sr ss s) = s
       \<and> lastSentAt (snd (sendMessage vm a ts r c k h iv n v sr ss s)) = lastSentAt s
       \<and> lastNonce (snd (sendMessage vm a ts r c k h iv n v sr ss s)) = lastNonce s
       \<and> usedIV (snd (sendMessage vm a ts r c k h iv n v sr ss s)) = usedIV s
       \<and> messages (snd (sendMessage vm a ts r c k h iv n v sr ss s)) = messages s
       \<and> nextMessageId (snd (sendMessage vm a ts r c k h iv n v sr ss s)) = nextMessageId s
       \<and> inboxIndex (snd (sendMessage vm a ts r c k h iv n v sr ss s)) = inboxIndex s
       \<and> outboxIndex (snd (sendMessage vm a ts r c k h iv n v sr ss s)) = outboxIndex s"
proof -
  have "snd (sendMessage vm a ts r c k h iv n v sr ss s) = s"
    using assms unfolding sendMessage_def by (rule transaction_failed)
  then show ?thesis by simp
qed

theorem sendMessage_atomic_witness:
  "fst (sendMessage toy_evm 1 100 2 ''c'' ''k'' 3 7 5 0 0 0 deployed) = Inl BadNonce
   \<and> snd (sendMessage toy_evm 1 100 2 ''c'' ''k'' 3 7 5 0 0 0 deployed) = deployed"
proof -
  have f: "fst (sendMessage toy_evm 1 100 2 ''c'' ''k'' 3 7 5 0 0 0 deployed) = Inl BadNonce"
    by (simp add: sendMessage_def transaction_fst sendMessage_body_def deployed_def Let_def)
  from sendMessage_atomic [OF f] f show ?thesis by simp
qed

subsection \<open>The rate limit\<close>

text \<open>
  Claim C3. In every ledger reached from deployment, \<open>lastSentAt\<close> of a sender is the
  acceptance time of its last accepted message (0 when it has none): an accepted submission
  sets it to the time of the call for its sender only, and a failed submission, a
  submission of another sender, \<^verbatim>\<open>registerRSAPublicKey\<close> and \<^verbatim>\<open>setMinInterval\<close> leave it as
  it is. For a submission with a non-zero recipient, digest and IV, at a time that is not
  before that \<open>lastSentAt\<close>: it fails with \<^verbatim>\<open>"rate-limited"\<close> when \<open>now - lastSentAt\<close> is
  below the interval, and is not rate-limited when it is at or above it; then it is
  accepted (and the timestamp set to \<open>now\<close>) when the IV is fresh, the nonce is the next one
  and the signature is zero. In particular at the boundary
  \<open>now - lastSentAt = minInterval\<close> it is not rate-limited, and accepted under the same
  conditions.
\<close>

theorem rate_limit:
  assumes "r \<noteq> 0" "h \<noteq> 0" "iv \<noteq> 0"
    and "lastSentAt s a \<le> ucast ts"
  shows "(unat (ucast ts :: uint64) - unat (lastSentAt s a) < unat (minIntervalSeconds s) \<longrightarrow>
            fst (sendMessage vm a ts r c k h iv n v sr ss s) = Inl RateLimited)
       \<and> (unat (minIntervalSeconds s) \<le> unat (ucast ts :: uint64) - unat (lastSentAt s a) \<longrightarrow>
            fst (sendMessage vm a ts r c k h iv n v sr ss s) \<noteq> Inl RateLimited
            \<and> (\<not> usedIV s a r iv \<and> lastNonce s a \<noteq> - 1 \<and> n = lastNonce s a + 1
                 \<and> v = 0 \<and> sr = 0 \<and> ss = 0 \<and> nextMessageId s \<noteq> - 1 \<longrightarrow>
               fst (sendMessage vm a ts r c k h iv n v sr ss s) = Inr ()
               \<and> lastSentAt (snd (sendMessage vm a ts r c k h iv n v sr ss s)) a = ucast ts))
       \<and> (unat (ucast ts :: uint64) - unat (lastSentAt s a) = unat (minIntervalSeconds s) \<longrightarrow>
            fst (sendMessage vm a ts r c k h iv n v sr ss s) \<noteq> Inl RateLimited
            \<and> (\<not> usedIV s a r iv \<and> lastNonce s a \<noteq> - 1 \<and> n = lastNonce s a + 1
                 \<and> v = 0 \<and> sr = 0 \<and> ss = 0 \<and> nextMessageId s \<noteq> - 1 \<longrightarrow>
               fst (sendMessage vm a ts r c k h iv n v sr ss s) = Inr ()
               \<and> lastSentAt (snd (sendMessage vm a ts r c k h iv n v sr ss s)) a = ucast ts))
       \<and> lastSentAt (run vm cs deployed) b = last_accepted_at (run vm cs deployed) b
       \<and> (fst (sendMessage vm b ts' r' c' k' h' iv' n' v' sr' ss' s') = Inr () \<longrightarrow>
            lastSentAt (snd (sendMessage vm b ts' r' c' k' h' iv' n' v' sr' ss' s'))
              = (lastSentAt s')(b := ucast ts'))
       \<and> (fst (sendMessage vm b ts' r' c' k' h' iv' n' v' sr' ss' s') = Inl e \<longrightarrow>
            lastSentAt (snd (sendMessage vm b ts' r' c' k' h' iv' n' v' sr' ss' s')) = lastSentAt s')
       \<and> (b \<noteq> a' \<longrightarrow>
            lastSentAt (snd (sendMessage vm b ts' r' c' k' h' iv' n' v' sr' ss' s')) a' = lastSentAt s' a')
       \<and> lastSentAt (snd (registerRSAPublicKey b ts' d uri s')) = lastSentAt s'
       \<and> lastSentAt (snd (setMinInterval b newValue s')) = lastSentAt s'"
proof -
  have sub: "unat (ucast ts - lastSentAt s a) = unat (ucast ts :: uint64) - unat (lastSentAt s a)"
    using assms(4) by (rule unat_sub)
  have le: "minIntervalSeconds s \<le> ucast ts - lastSentAt s a \<longleftrightarrow>
            unat (minIntervalSeconds s) \<le> unat (ucast ts :: uint64) - unat (lastSentAt s a)"
    by (simp add: word_le_nat_alt sub)
  have limited: "fst (sendMessage vm a ts r c k h iv n v sr ss s) = Inl RateLimited \<longleftrightarrow>
                 \<not> minIntervalSeconds s \<le> ucast ts - lastSentAt s a"
    using assms by (auto simp: sendMessage_def transaction_fst sendMessage_body_def Let_def not_less)
  have main: "(unat (ucast ts :: uint64) - unat (lastSentAt s a) < unat (minIntervalSeconds s) \<longrightarrow>
            fst (sendMessage vm a ts r c k h iv n v sr ss s) = Inl RateLimited)
       \<and> (unat (minIntervalSeconds s) \<le> unat (ucast ts :: uint64) - unat (lastSentAt s a) \<longrightarrow>
            fst (sendMessage vm a ts r c k h iv n v sr ss s) \<noteq> Inl RateLimited
            \<and> (\<not> usedIV s a r iv \<and> lastNonce s a \<noteq> - 1 \<and> n = lastNonce s a + 1
                 \<and> v = 0 \<and> sr = 0 \<and> ss = 0 \<and> nextMessageId s \<noteq> - 1 \<longrightarrow>
               fst (sendMessage vm a ts r c k h iv n v sr ss s) = Inr ()
               \<and> lastSentAt (snd (sendMessage vm a ts r c k h iv n v sr ss s)) a = ucast ts))
       \<and> (unat (ucast ts :: uint64) - unat (lastSentAt s a) = unat (minIntervalSeconds s) \<longrightarrow>
            fst (sendMessage vm a ts r c k h iv n v sr ss s) \<noteq> Inl RateLimited
            \<and> (\<not> usedIV s a r iv \<and> lastNonce s a \<noteq> - 1 \<and> n = lastNonce s a + 1
                 \<and> v = 0 \<and> sr = 0 \<and> ss = 0 \<and> nextMessageId s \<noteq> - 1 \<longrightarrow>
               fst (sendMessage vm a ts r c k h iv n v sr ss s) = Inr ()
               \<and> lastSentAt (snd (sendMessage vm a ts r c k h iv n v sr ss s)) a = ucast ts))"
    using assms
    by (auto simp: limited le sendMessage_accept_iff sendMessage_accept_state)
  have reach: "lastSentAt (run vm cs deployed) b = last_accepted_at (run vm cs deployed) b"
    by (rule lastSentAt_reachable)
  have acc: "lastSentAt (snd (sendMessage vm b ts' r' c' k' h' iv' n' v' sr' ss' s'))
              = (lastSentAt s')(b := ucast ts')"
    if ok: "fst (sendMessage vm b ts' r' c' k' h' iv' n' v' sr' ss' s') = Inr ()"
    by (simp add: sendMessage_accept_state [OF ok])
  have fail: "lastSentAt (snd (sendMessage vm b ts' r' c' k' h' iv' n' v' sr' ss' s')) = lastSentAt s'"
    if "fst (sendMessage vm b ts' r' c' k' h' iv' n' v' sr' ss' s') = Inl e"
    using that by (simp add: sendMessage_failed)
  have other: "lastSentAt (snd (sendMessage vm b ts' r' c' k' h' iv' n' v' sr' ss' s')) a' = lastSentAt s' a'"
    if "b \<noteq> a'"
    using that by (rule lastSentAt_other_sender)
  have reg: "lastSentAt (snd (registerRSAPublicKey b ts' d uri s')) = lastSentAt s'"
    by (simp add: registerRSAPublicKey_eq)
  have setv: "lastSentAt (snd (setMinInterval b newValue s')) = lastSentAt s'"
    by (simp add: setMinInterval_eq)
  from main reach acc fail other reg setv show ?thesis by blast
qed

theorem rate_limit_witness:
  "fst (sendMessage toy_evm 1 105 2 ''c2'' ''k2'' 3 8 2 0 0 0 first_sent) = Inl RateLimited
   \<and> fst (sendMessage toy_evm 1 111 2 ''c2'' ''k2'' 3 8 2 0 0 0 first_sent) \<noteq> Inl RateLimited
   \<and> fst (sendMessage toy_evm 1 110 2 ''c2'' ''k2'' 3 8 2 0 0 0 first_sent) = Inr ()
   \<and> lastSentAt (snd (sendMessage toy_evm 1 110 2 ''c2'' ''k2'' 3 8 2 0 0 0 first_sent)) 1 = 110
   \<and> last_accepted_at first_sent 1 = 100
   \<and> lastSentAt (snd (sendMessage toy_evm 5 103 2 ''c3'' ''k3'' 3 9 1 0 0 0 first_sent)) 1 = 100"
proof -
  have pre: "(2 :: address) \<noteq> 0" "(3 :: bytes32) \<noteq> 0" "(8 :: bytes12) \<noteq> 0"
    by simp_all
  have t105: "lastSentAt first_sent 1 \<le> ucast (105 :: uint256)"
    and t110: "lastSentAt first_sent 1 \<le> ucast (110 :: uint256)"
    and t111: "lastSentAt first_sent 1 \<le> ucast (111 :: uint256)"
    by (simp_all add: first_sent_fields)
  have 1: "fst (sendMessage toy_evm 1 105 2 ''c2'' ''k2'' 3 8 2 0 0 0 first_sent) = Inl RateLimited"
    using rate_limit [OF pre t105, where vm = toy_evm and c = "''c2''" and k = "''k2''"
        and n = 2 and v = 0 and sr = 0 and ss = 0, THEN conjunct1]
    by (simp add: first_sent_fields)
  have 2: "fst (sendMessage toy_evm 1 111 2 ''c2'' ''k2'' 3 8 2 0 0 0 first_sent) \<noteq> Inl RateLimited"
    using rate_limit [OF pre t111, where vm = toy_evm and c = "''c2''" and k = "''k2''"
        and n = 2 and v = 0 and sr = 0 and ss = 0, THEN conjunct2, THEN conjunct1]
    by (simp add: first_sent_fields)
  have 3: "fst (sendMessage toy_evm 1 110 2 ''c2'' ''k2'' 3 8 2 0 0 0 first_sent) = Inr ()
      \<and> lastSentAt (snd (sendMessage toy_evm 1 110 2 ''c2'' ''k2'' 3 8 2 0 0 0 first_sent)) 1 = 110"
    using rate_limit [OF pre t110, where vm = toy_evm and c = "''c2''" and k = "''k2''"
        and n = 2 and v = 0 and sr = 0 and ss = 0, THEN conjunct2, THEN conjunct2, THEN conjunct1]
    by (simp add: first_sent_fields)
  have run1: "run toy_evm [SendMessage 1 100 2 ''local://c1'' ''local://k1'' 3 7 1 0 0 0] deployed
      = first_sent"
    by (simp add: first_sent_def)
  have 4: "last_accepted_at first_sent 1 = 100"
    using rate_limit [OF pre t110, where vm = toy_evm and b = 1
        and cs = "[SendMessage 1 100 2 ''local://c1'' ''local://k1'' 3 7 1 0 0 0]",
        THEN conjunct2, THEN conjunct2, THEN conjunct2, THEN conjunct1]
    unfolding run1 by (simp add: first_sent_fields)
  have 5: "lastSentAt (snd (sendMessage toy_evm 5 103 2 ''c3'' ''k3'' 3 9 1 0 0 0 first_sent)) 1 = 100"
    using rate_limit [OF pre t110, where vm = toy_evm and b = 5 and a' = 1 and s' = first_sent
        and ts' = 103 and r' = 2 and c' = "''c3''" and k' = "''k3''" and h' = 3 and iv' = 9
        and n' = 1 and v' = 0 and sr' = 0 and ss' = 0,
        THEN conjunct2, THEN conjunct2, THEN conjunct2, THEN conjunct2, THEN conjunct2,
        THEN conjunct2, THEN conjunct1]
    by (simp add: first_sent_fields)
  show ?thesis using 1 2 3 4 5 by blast
qed

subsection \<open>Changing the interval\<close>

text \<open>
  Claim C10. \<^verbatim>\<open>setMinInterval\<close> succeeds for every caller and every value, and sets the
  interval to that value (and emits \<^verbatim>\<open>MinIntervalUpdated\<close>). No other call changes the
  interval: \<^verbatim>\<open>sendMessage\<close>, accepted or not, and \<^verbatim>\<open>registerRSAPublicKey\<close> leave it as it
  is, so after any later calls that are not calls of \<^verbatim>\<open>setMinInterval\<close> it is still that
  value. Every later submission of any sender with valid fields, at a time not before its
  \<open>lastSentAt\<close>, is then rate-limited exactly when \<open>now - lastSentAt\<close> is below the value;
  after setting the interval to 0 no later submission is rate-limited.
\<close>

theorem setMinInterval_unrestricted:
  "setMinInterval caller newValue s =
     (Inr (), s\<lparr>minIntervalSeconds := newValue, events := events s @ [MinIntervalUpdated newValue]\<rparr>)
   \<and> minIntervalSeconds (snd (setMinInterval caller newValue s)) = newValue
   \<and> (r \<noteq> 0 \<and> h \<noteq> 0 \<and> iv \<noteq> 0 \<and> lastSentAt s a \<le> ucast ts \<longrightarrow>
        (fst (sendMessage vm a ts r c k h iv n v sr ss (snd (setMinInterval caller newValue s))) = Inl RateLimited
         \<longleftrightarrow> unat (ucast ts :: uint64) - unat (lastSentAt s a) < unat newValue))
   \<and> fst (sendMessage vm a ts r c k h iv n v sr ss (snd (setMinInterval caller 0 s))) \<noteq> Inl RateLimited
   \<and> minIntervalSeconds (snd (sendMessage vm a ts r c k h iv n v sr ss s)) = minIntervalSeconds s
   \<and> minIntervalSeconds (snd (registerRSAPublicKey a ts d uri s)) = minIntervalSeconds s
   \<and> (\<not> list_ex sets_interval cs \<longrightarrow>
        minIntervalSeconds (run vm cs (snd (setMinInterval caller newValue s))) = newValue
        \<and> (r \<noteq> 0 \<and> h \<noteq> 0 \<and> iv \<noteq> 0
             \<and> lastSentAt (run vm cs (snd (setMinInterval caller newValue s))) a \<le> ucast ts \<longrightarrow>
              (fst (sendMessage vm a ts r c k h iv n v sr ss
                     (run vm cs (snd (setMinInterval caller newValue s)))) = Inl RateLimited
               \<longleftrightarrow> unat (ucast ts :: uint64)
                     - unat (lastSentAt (run vm cs (snd (setMinInterval caller newValue s))) a)
                   < unat newValue))
        \<and> fst (sendMessage vm a ts r c k h iv n v sr ss
                     (run vm cs (snd (setMinInterval caller 0 s)))) \<noteq> Inl RateLimited)"
proof -
  have limited: "fst (sendMessage vm a ts r c k h iv n v sr ss s') = Inl RateLimited \<longleftrightarrow>
      r \<noteq> 0 \<and> h \<noteq> 0 \<and> iv \<noteq> 0 \<and> lastSentAt s' a \<le> ucast ts
      \<and> \<not> minIntervalSeconds s' \<le> ucast ts - lastSentAt s' a" for s'
    by (auto simp: sendMessage_def transaction_fst sendMessage_body_def Let_def not_less)
  have sub: "lastSentAt s' a \<le> ucast ts \<Longrightarrow>
      unat (ucast ts - lastSentAt s' a) = unat (ucast ts :: uint64) - unat (lastSentAt s' a)" for s'
    by (rule unat_sub)
  have first: "setMinInterval caller newValue s =
     (Inr (), s\<lparr>minIntervalSeconds := newValue, events := events s @ [MinIntervalUpdated newValue]\<rparr>)
   \<and> minIntervalSeconds (snd (setMinInterval caller newValue s)) = newValue
   \<and> (r \<noteq> 0 \<and> h \<noteq> 0 \<and> iv \<noteq> 0 \<and> lastSentAt s a \<le> ucast ts \<longrightarrow>
        (fst (sendMessage vm a ts r c k h iv n v sr ss (snd (setMinInterval caller newValue s))) = Inl RateLimited
         \<longleftrightarrow> unat (ucast ts :: uint64) - unat (lastSentAt s a) < unat newValue))
   \<and> fst (sendMessage vm a ts r c k h iv n v sr ss (snd (setMinInterval caller 0 s))) \<noteq> Inl RateLimited"
    by (auto simp: setMinInterval_eq limited word_le_nat_alt sub)
  have frame1: "minIntervalSeconds (snd (sendMessage vm a ts r c k h iv n v sr ss s)) = minIntervalSeconds s"
    by (rule minIntervalSeconds_sendMessage)
  have frame2: "minIntervalSeconds (snd (registerRSAPublicKey a ts d uri s)) = minIntervalSeconds s"
    by (simp add: registerRSAPublicKey_eq)
  have later: "minIntervalSeconds (run vm cs (snd (setMinInterval caller w s))) = w"
    if "\<not> list_ex sets_interval cs" for w
    using minIntervalSeconds_run [OF that, of vm "snd (setMinInterval caller w s)"]
    by (simp add: setMinInterval_eq)
  have later_limited: "fst (sendMessage vm a ts r c k h iv n v sr ss
                     (run vm cs (snd (setMinInterval caller newValue s)))) = Inl RateLimited
               \<longleftrightarrow> unat (ucast ts :: uint64)
                     - unat (lastSentAt (run vm cs (snd (setMinInterval caller newValue s))) a)
                   < unat newValue"
    if "\<not> list_ex sets_interval cs" "r \<noteq> 0 \<and> h \<noteq> 0 \<and> iv \<noteq> 0
             \<and> lastSentAt (run vm cs (snd (setMinInterval caller newValue s))) a \<le> ucast ts"
    using that(2) by (auto simp: limited later [OF that(1)] word_le_nat_alt sub)
  have later_zero: "fst (sendMessage vm a ts r c k h iv n v sr ss
                     (run vm cs (snd (setMinInterval caller 0 s)))) \<noteq> Inl RateLimited"
    if "\<not> list_ex sets_interval cs"
    by (simp add: limited later [OF that])
  from first frame1 frame2 later later_limited later_zero show ?thesis by blast
qed

theorem setMinInterval_unrestricted_witness:
  "fst (sendMessage toy_evm 1 101 2 ''c2'' ''k2'' 3 8 2 0 0 0 (snd (setMinInterval 9 0 first_sent))) \<noteq> Inl RateLimited
   \<and> minIntervalSeconds (snd (setMinInterval 9 50 first_sent)) = 50
   \<and> fst (sendMessage toy_evm 1 110 2 ''c2'' ''k2'' 3 8 2 0 0 0 (snd (setMinInterval 9 50 first_sent))) = Inl RateLimited
   \<and> minIntervalSeconds (run toy_evm
         [SendMessage 5 103 2 ''c3'' ''k3'' 3 9 1 0 0 0, RegisterRSAPublicKey 2 104 5 ''ipfs://k'']
         (snd (setMinInterval 9 50 first_sent))) = 50"
proof -
  have quiet: "\<not> list_ex sets_interval
      [SendMessage 5 103 2 ''c3'' ''k3'' 3 9 1 0 0 0, RegisterRSAPublicKey 2 104 5 ''ipfs://k'']"
    by simp
  have 1: "fst (sendMessage toy_evm 1 101 2 ''c2'' ''k2'' 3 8 2 0 0 0 (snd (setMinInterval 9 0 first_sent))) \<noteq> Inl RateLimited"
    using setMinInterval_unrestricted [where caller = 9 and s = first_sent and vm = toy_evm
        and a = 1 and ts = 101 and r = 2 and c = "''c2''" and k = "''k2''" and h = 3 and iv = 8
        and n = 2 and v = 0 and sr = 0 and ss = 0,
        THEN conjunct2, THEN conjunct2, THEN conjunct2, THEN conjunct1] .
  have 2: "minIntervalSeconds (snd (setMinInterval 9 50 first_sent)) = 50"
    using setMinInterval_unrestricted [where caller = 9 and newValue = 50 and s = first_sent,
        THEN conjunct2, THEN conjunct1] .
  have 3: "fst (sendMessage toy_evm 1 110 2 ''c2'' ''k2'' 3 8 2 0 0 0 (snd (setMinInterval 9 50 first_sent))) = Inl RateLimited"
    using setMinInterval_unrestricted [where caller = 9 and newValue = 50 and s = first_sent
        and vm = toy_evm and a = 1 and ts = 110 and r = 2 and c = "''c2''" and k = "''k2''"
        and h = 3 and iv = 8 and n = 2 and v = 0 and sr = 0 and ss = 0,
        THEN conjunct2, THEN conjunct2, THEN conjunct1]
    by (simp add: first_sent_fields)
  have 4: "minIntervalSeconds (run toy_evm
         [SendMessage 5 103 2 ''c3'' ''k3'' 3 9 1 0 0 0, RegisterRSAPublicKey 2 104 5 ''ipfs://k'']
         (snd (setMinInterval 9 50 first_sent))) = 50"
    using setMinInterval_unrestricted [where caller = 9 and newValue = 50 and s = first_sent
        and vm = toy_evm
        and cs = "[SendMessage 5 103 2 ''c3'' ''k3'' 3 9 1 0 0 0, RegisterRSAPublicKey 2 104 5 ''ipfs://k'']",
        THEN conjunct2, THEN conjunct2, THEN conjunct2, THEN conjunct2, THEN conjunct2,
        THEN conjunct2, THEN mp, OF quiet, THEN conjunct1] .
  show ?thesis using 1 2 3 4 by blast
qed

subsection \<open>The key registry\<close>

text \<open>
  \<^verbatim>\<open>registerRSAPublicKey\<close> has no \<^verbatim>\<open>require\<close>: a zero digest is accepted and stored.
\<close>

theorem registerKey_no_validation_counterexample:
  "fst (registerRSAPublicKey 1 100 0 ''ipfs://key'' deployed) = Inr ()
   \<and> k_rsaPubKeySha256 (keyRegistry (snd (registerRSAPublicKey 1 100 0 ''ipfs://key'' deployed)) 1) = 0"
  by (simp add: registerRSAPublicKey_eq)

text \<open>
  Claim C8, as amended. \<^verbatim>\<open>registerRSAPublicKey\<close> validates nothing and succeeds on every
  input, a zero digest included. It replaces the whole record of the caller by the digest,
  the locator and the time of the call (whatever the record was before), leaves everything
  else as it was, and emits \<^verbatim>\<open>KeyRegistered\<close> with the caller, the digest, the locator
  and that time.
\<close>

theorem registerKey_overwrites:
  "registerRSAPublicKey a ts d uri s =
     (Inr (), s\<lparr>keyRegistry := (keyRegistry s)(a :=
                  \<lparr>k_rsaPubKeySha256 = d, k_rsaPubKeyURI = uri, k_updatedAt = ucast ts\<rparr>),
               events := events s @ [KeyRegistered a d uri (ucast ts)]\<rparr>)
   \<and> keyRegistry (snd (registerRSAPublicKey a ts d uri s)) a =
       \<lparr>k_rsaPubKeySha256 = d, k_rsaPubKeyURI = uri, k_updatedAt = ucast ts\<rparr>
   \<and> last (events (snd (registerRSAPublicKey a ts d uri s))) = KeyRegistered a d uri (ucast ts)"
  by (simp add: registerRSAPublicKey_eq)

theorem registerKey_overwrites_witness:
  "keyRegistry (snd (registerRSAPublicKey 1 200 6 ''ipfs://new''
      (snd (registerRSAPublicKey 1 100 5 ''ipfs://old'' deployed)))) 1 =
       \<lparr>k_rsaPubKeySha256 = 6, k_rsaPubKeyURI = ''ipfs://new'', k_updatedAt = 200\<rparr>"
  using registerKey_overwrites [of 1 200 6 "''ipfs://new''" "snd (registerRSAPublicKey 1 100 5 ''ipfs://old'' deployed)"]
  by simp

subsection \<open>The nonce sequence\<close>

lemma unat_nonce_upto:
  "map unat (map (of_nat :: nat \<Rightarrow> uint128) [1..<Suc (unat (w :: uint128))]) = [1..<Suc (unat w)]"
proof -
  have "map (unat \<circ> (of_nat :: nat \<Rightarrow> uint128)) [1..<Suc (unat w)] = [1..<Suc (unat w)]"
  proof (rule map_idI)
    fix i assume "i \<in> set [1..<Suc (unat w)]"
    then have "i \<le> unat w" by auto
    then show "(unat \<circ> (of_nat :: nat \<Rightarrow> uint128)) i = i"
      by (simp add: le_unat_uoi)
  qed
  then show ?thesis by (simp only: map_map)
qed

lemma sendMessage_bad_nonce:
  assumes "r \<noteq> 0" "h \<noteq> 0" "iv \<noteq> 0" "lastSentAt s a \<le> ucast ts"
    "minIntervalSeconds s \<le> ucast ts - lastSentAt s a" "\<not> usedIV s a r iv"
    "lastNonce s a \<noteq> - 1" "n \<noteq> lastNonce s a + 1"
  shows "fst (sendMessage vm a ts r c k h iv n v sr ss s) = Inl BadNonce"
  using assms by (simp add: sendMessage_def transaction_fst sendMessage_body_def Let_def not_less)

text \<open>
  A nonce of \<open>lastNonce + 2\<close> does not always fail with \<^verbatim>\<open>"bad nonce"\<close>: the checks
  before the nonce check come first. With a zero recipient the call reverts with
  \<^verbatim>\<open>"recipient=0"\<close>, and five seconds after the sender's last message with \<^verbatim>\<open>"rate-limited"\<close>.
\<close>

theorem nonce_not_always_BadNonce_counterexample:
  "lastNonce deployed 1 + 2 = 2
   \<and> fst (sendMessage toy_evm 1 100 0 ''c'' ''k'' 3 7 2 0 0 0 deployed) = Inl RecipientZero
   \<and> lastNonce first_sent 1 + 2 = 3
   \<and> fst (sendMessage toy_evm 1 105 2 ''c'' ''k'' 3 8 3 0 0 0 first_sent) = Inl RateLimited"
  by (simp add: sendMessage_def transaction_fst sendMessage_body_def Let_def first_sent_fields)
     (simp add: deployed_def)

text \<open>
  Claim C1, as amended. In every ledger reached from deployment, the nonces of the messages
  of a sender, in the order of acceptance, are exactly 1, 2, ..., \<open>lastNonce\<close>; the counter
  starts at 0. A submission is accepted only when its nonce is the counter plus 1, and
  acceptance sets the counter to that nonce. Any other nonce is never accepted and leaves
  the ledger unchanged; it fails with \<^verbatim>\<open>"bad nonce"\<close> when the checks before the nonce
  check pass, in particular for \<open>lastNonce + 2\<close>. Whatever the nonce, a submission that does
  not pass an earlier check fails with the failure of the first such check: a zero
  recipient, digest or IV (in this order), a time before \<open>lastSentAt\<close> (panic), the rate
  limit, a used IV, a counter at its maximum (panic).
\<close>

theorem nonce_sequence:
  "map unat (accepted_nonces (run vm cs deployed) b) = [1..<Suc (unat (lastNonce (run vm cs deployed) b))]
   \<and> lastNonce deployed b = 0
   \<and> (fst (sendMessage vm a ts r c k h iv n v sr ss s) = Inr () \<longrightarrow>
         n = lastNonce s a + 1 \<and> unat n = unat (lastNonce s a) + 1
         \<and> lastNonce (snd (sendMessage vm a ts r c k h iv n v sr ss s)) a = n)
   \<and> (n \<noteq> lastNonce s a + 1 \<longrightarrow>
         (\<exists>e. fst (sendMessage vm a ts r c k h iv n v sr ss s) = Inl e)
         \<and> snd (sendMessage vm a ts r c k h iv n v sr ss s) = s)
   \<and> (r \<noteq> 0 \<and> h \<noteq> 0 \<and> iv \<noteq> 0 \<and> lastSentAt s a \<le> ucast ts
        \<and> minIntervalSeconds s \<le> ucast ts - lastSentAt s a \<and> \<not> usedIV s a r iv
        \<and> lastNonce s a \<noteq> - 1 \<longrightarrow>
         (n \<noteq> lastNonce s a + 1 \<longrightarrow> fst (sendMessage vm a ts r c k h iv n v sr ss s) = Inl BadNonce)
         \<and> fst (sendMessage vm a ts r c k h iv (lastNonce s a + 2) v sr ss s) = Inl BadNonce)
   \<and> (r = 0 \<longrightarrow> fst (sendMessage vm a ts r c k h iv n v sr ss s) = Inl RecipientZero)
   \<and> (r \<noteq> 0 \<and> h = 0 \<longrightarrow> fst (sendMessage vm a ts r c k h iv n v sr ss s) = Inl Sha256HashZero)
   \<and> (r \<noteq> 0 \<and> h \<noteq> 0 \<and> iv = 0 \<longrightarrow>
        fst (sendMessage vm a ts r c k h iv n v sr ss s) = Inl IvZero)
   \<and> (r \<noteq> 0 \<and> h \<noteq> 0 \<and> iv \<noteq> 0 \<and> ucast ts < lastSentAt s a \<longrightarrow>
        fst (sendMessage vm a ts r c k h iv n v sr ss s) = Inl ArithmeticPanic)
   \<and> (r \<noteq> 0 \<and> h \<noteq> 0 \<and> iv \<noteq> 0 \<and> lastSentAt s a \<le> ucast ts
        \<and> \<not> minIntervalSeconds s \<le> ucast ts - lastSentAt s a \<longrightarrow>
        fst (sendMessage vm a ts r c k h iv n v sr ss s) = Inl RateLimited)
   \<and> (r \<noteq> 0 \<and> h \<noteq> 0 \<and> iv \<noteq> 0 \<and> lastSentAt s a \<le> ucast ts
        \<and> minIntervalSeconds s \<le> ucast ts - lastSentAt s a \<and> usedIV s a r iv \<longrightarrow>
        fst (sendMessage vm a ts r c k h iv n v sr ss s) = Inl IVAlreadyUsed)
   \<and> (r \<noteq> 0 \<and> h \<noteq> 0 \<and> iv \<noteq> 0 \<and> lastSentAt s a \<le> ucast ts
        \<and> minIntervalSeconds s \<le> ucast ts - lastSentAt s a \<and> \<not> usedIV s a r iv
        \<and> lastNonce s a = - 1 \<longrightarrow>
        fst (sendMessage vm a ts r c k h iv n v sr ss s) = Inl ArithmeticPanic)"
proof -
  have 1: "map unat (accepted_nonces (run vm cs deployed) b) = [1..<Suc (unat (lastNonce (run vm cs deployed) b))]"
    by (simp only: nonces_reachable unat_nonce_upto)
  have 2: "lastNonce deployed b = 0" by (simp add: deployed_def)
  have 3: "n = lastNonce s a + 1 \<and> unat n = unat (lastNonce s a) + 1
         \<and> lastNonce (snd (sendMessage vm a ts r c k h iv n v sr ss s)) a = n"
    if ok: "fst (sendMessage vm a ts r c k h iv n v sr ss s) = Inr ()"
  proof -
    from ok have n: "n = lastNonce s a + 1" and nmax: "lastNonce s a \<noteq> - 1"
      by (simp_all add: sendMessage_accept_iff)
    have "lastNonce (snd (sendMessage vm a ts r c k h iv n v sr ss s)) a = n"
      by (simp add: sendMessage_accept_state [OF ok])
    moreover have "unat n = unat (lastNonce s a) + 1"
      using nmax by (simp add: n word_succ_unat)
    ultimately show ?thesis using n by blast
  qed
  have 4: "(\<exists>e. fst (sendMessage vm a ts r c k h iv n v sr ss s) = Inl e)
         \<and> snd (sendMessage vm a ts r c k h iv n v sr ss s) = s"
    if "n \<noteq> lastNonce s a + 1"
  proof -
    have "fst (sendMessage vm a ts r c k h iv n v sr ss s) \<noteq> Inr ()"
      using that by (simp add: sendMessage_accept_iff)
    then obtain e where "fst (sendMessage vm a ts r c k h iv n v sr ss s) = Inl e"
      using sendMessage_cases by blast
    then show ?thesis using sendMessage_failed by blast
  qed
  have two: "lastNonce s a + 2 \<noteq> lastNonce s a + 1" by simp
  have 5: "(n \<noteq> lastNonce s a + 1 \<longrightarrow> fst (sendMessage vm a ts r c k h iv n v sr ss s) = Inl BadNonce)
         \<and> fst (sendMessage vm a ts r c k h iv (lastNonce s a + 2) v sr ss s) = Inl BadNonce"
    if "r \<noteq> 0 \<and> h \<noteq> 0 \<and> iv \<noteq> 0 \<and> lastSentAt s a \<le> ucast ts
        \<and> minIntervalSeconds s \<le> ucast ts - lastSentAt s a \<and> \<not> usedIV s a r iv
        \<and> lastNonce s a \<noteq> - 1"
    using that sendMessage_bad_nonce two by blast
  show ?thesis
    apply (intro conjI impI)
    subgoal by (rule 1)
    subgoal by (rule 2)
    subgoal using 3 by blast
    subgoal using 3 by blast
    subgoal using 3 by blast
    subgoal using 4 by blast
    subgoal using 4 by blast
    subgoal using 5 by blast
    subgoal using 5 by blast
    subgoal by (simp add: sendMessage_kinds(1))
    subgoal by (simp add: sendMessage_kinds(2))
    subgoal by (simp add: sendMessage_kinds(3))
    subgoal by (simp add: sendMessage_kinds(4))
    subgoal by (simp add: sendMessage_kinds(5))
    subgoal by (simp add: sendMessage_kinds(6))
    subgoal by (simp add: sendMessage_kinds(7))
    done
qed

lemma second_sent_accepted:
  "fst (sendMessage toy_evm 1 110 2 ''local://c2'' ''local://k2'' 3 8 2 0 0 0 first_sent) = Inr ()"
  by (simp add: sendMessage_accept_iff first_sent_fields)

theorem nonce_sequence_witness:
  "map unat (accepted_nonces (run toy_evm
       [SendMessage 1 100 2 ''local://c1'' ''local://k1'' 3 7 1 0 0 0,
        SendMessage 1 105 2 ''local://c2'' ''local://k2'' 3 8 2 0 0 0,
        SendMessage 1 110 2 ''local://c2'' ''local://k2'' 3 8 2 0 0 0] deployed) 1) = [1, 2]
   \<and> fst (sendMessage toy_evm 1 110 2 ''local://c2'' ''local://k2'' 3 8 3 0 0 0 first_sent) = Inl BadNonce
   \<and> snd (sendMessage toy_evm 1 110 2 ''local://c2'' ''local://k2'' 3 8 3 0 0 0 first_sent) = first_sent"
proof -
  have limited: "fst (sendMessage toy_evm 1 105 2 ''local://c2'' ''local://k2'' 3 8 2 0 0 0 first_sent) = Inl RateLimited"
    by (simp add: sendMessage_def transaction_fst sendMessage_body_def Let_def first_sent_fields)
  have run: "run toy_evm
       [SendMessage 1 100 2 ''local://c1'' ''local://k1'' 3 7 1 0 0 0,
        SendMessage 1 105 2 ''local://c2'' ''local://k2'' 3 8 2 0 0 0,
        SendMessage 1 110 2 ''local://c2'' ''local://k2'' 3 8 2 0 0 0] deployed
      = snd (sendMessage toy_evm 1 110 2 ''local://c2'' ''local://k2'' 3 8 2 0 0 0 first_sent)"
    by (simp add: first_sent_def [symmetric] sendMessage_failed [OF limited])
  have last: "lastNonce (snd (sendMessage toy_evm 1 110 2 ''local://c2'' ''local://k2'' 3 8 2 0 0 0 first_sent)) 1 = 2"
    by (simp add: sendMessage_accept_state [OF second_sent_accepted])
  have upt: "[Suc 0..<3] = [Suc 0, 2]" by (simp add: upt_rec)
  show ?thesis
    using nonce_sequence [where vm = toy_evm and b = 1 and a = 1 and ts = 110 and r = 2
        and c = "''local://c2''" and k = "''local://k2''" and h = 3 and iv = 8 and n = 3
        and v = 0 and sr = 0 and ss = 0 and s = first_sent
        and cs = "[SendMessage 1 100 2 ''local://c1'' ''local://k1'' 3 7 1 0 0 0,
        SendMessage 1 105 2 ''local://c2'' ''local://k2'' 3 8 2 0 0 0,
        SendMessage 1 110 2 ''local://c2'' ''local://k2'' 3 8 2 0 0 0]"]
    unfolding run last
    by (simp add: first_sent_fields upt)
qed

subsection \<open>Uniqueness of the IV per sender and recipient\<close>

lemma usedIV_exec:
  assumes u: "usedIV s a r iv"
  shows "usedIV (snd (exec vm c s)) a r iv"
proof (cases c)
  case (SendMessage a' ts r' cc k h iv' n v sr ss)
  show ?thesis
  proof (cases "fst (sendMessage vm a' ts r' cc k h iv' n v sr ss s)")
    case (Inl e)
    then show ?thesis using SendMessage u by (simp add: sendMessage_failed)
  next
    case (Inr x)
    then have ok: "fst (sendMessage vm a' ts r' cc k h iv' n v sr ss s) = Inr ()" by simp
    show ?thesis using SendMessage u by (auto simp: sendMessage_accept_state [OF ok])
  qed
next
  case (RegisterRSAPublicKey a' ts d uri)
  then show ?thesis using u by (simp add: registerRSAPublicKey_eq)
next
  case (SetMinInterval a' v)
  then show ?thesis using u by (simp add: setMinInterval_eq)
qed

lemma usedIV_run: "usedIV s a r iv \<Longrightarrow> usedIV (run vm cs s) a r iv"
  by (induction cs arbitrary: s) (simp_all add: usedIV_exec)

lemma sendMessage_used_iv_fails:
  assumes "usedIV s a r iv"
  shows "\<exists>e. fst (sendMessage vm a ts r c k h iv n v sr ss s) = Inl e"
proof -
  have "fst (sendMessage vm a ts r c k h iv n v sr ss s) \<noteq> Inr ()"
    using assms by (simp add: sendMessage_accept_iff)
  then show ?thesis using sendMessage_cases by blast
qed

lemma sendMessage_duplicate_iv:
  assumes "usedIV s a r iv" "r \<noteq> 0" "h \<noteq> 0" "iv \<noteq> 0" "lastSentAt s a \<le> ucast ts"
    "minIntervalSeconds s \<le> ucast ts - lastSentAt s a"
  shows "fst (sendMessage vm a ts r c k h iv n v sr ss s) = Inl IVAlreadyUsed"
  using assms by (simp add: sendMessage_def transaction_fst sendMessage_body_def Let_def not_less)

text \<open>
  A second submission with the triple of an accepted message does not always fail with
  \<^verbatim>\<open>"IV already used"\<close>: the rate limit is checked first, so five seconds after the first
  message the reuse of its IV reverts with \<^verbatim>\<open>"rate-limited"\<close>.
\<close>

theorem iv_reuse_not_always_DuplicateIV_counterexample:
  "fst (sendMessage toy_evm 1 100 2 ''local://c1'' ''local://k1'' 3 7 1 0 0 0 deployed) = Inr ()
   \<and> first_sent = snd (sendMessage toy_evm 1 100 2 ''local://c1'' ''local://k1'' 3 7 1 0 0 0 deployed)
   \<and> fst (sendMessage toy_evm 1 105 2 ''local://c2'' ''local://k2'' 3 7 2 0 0 0 first_sent) = Inl RateLimited"
  by (simp add: first_sent_accepted first_sent_def [symmetric])
     (simp add: sendMessage_def transaction_fst sendMessage_body_def Let_def first_sent_fields)

text \<open>
  Claim C2, as amended. Once a submission of sender \<open>a\<close> to recipient \<open>r\<close> with IV \<open>iv\<close> is
  accepted, \<^verbatim>\<open>isIVUsed(a, r, iv)\<close> is true and stays true after any later calls, and every
  later submission with the same triple fails and leaves the ledger unchanged, whatever
  its nonce and timestamp. Whatever its nonce, it fails with \<^verbatim>\<open>"sha256Hash=0"\<close> when its
  digest is zero; otherwise with a panic when its time is before the stored
  \<open>lastSentAt\<close> of the sender; otherwise with \<^verbatim>\<open>"rate-limited"\<close> when its time is less
  than the interval after that \<open>lastSentAt\<close>; and otherwise with \<^verbatim>\<open>"IV already used"\<close>.
\<close>

theorem iv_unique:
  assumes "fst (sendMessage vm a ts r c k h iv n v sr ss s) = Inr ()"
  shows "isIVUsed (snd (sendMessage vm a ts r c k h iv n v sr ss s)) a r iv
       \<and> isIVUsed (run vm cs (snd (sendMessage vm a ts r c k h iv n v sr ss s))) a r iv
       \<and> (\<exists>e. fst (sendMessage vm a ts' r c' k' h' iv n' v' sr' ss'
                     (run vm cs (snd (sendMessage vm a ts r c k h iv n v sr ss s)))) = Inl e)
       \<and> snd (sendMessage vm a ts' r c' k' h' iv n' v' sr' ss'
                     (run vm cs (snd (sendMessage vm a ts r c k h iv n v sr ss s))))
           = run vm cs (snd (sendMessage vm a ts r c k h iv n v sr ss s))
       \<and> (h' \<noteq> 0
            \<and> lastSentAt (run vm cs (snd (sendMessage vm a ts r c k h iv n v sr ss s))) a \<le> ucast ts'
            \<and> minIntervalSeconds (run vm cs (snd (sendMessage vm a ts r c k h iv n v sr ss s)))
                 \<le> ucast ts' - lastSentAt (run vm cs (snd (sendMessage vm a ts r c k h iv n v sr ss s))) a
          \<longrightarrow> fst (sendMessage vm a ts' r c' k' h' iv n' v' sr' ss'
                     (run vm cs (snd (sendMessage vm a ts r c k h iv n v sr ss s)))) = Inl IVAlreadyUsed)
       \<and> (h' = 0
          \<longrightarrow> fst (sendMessage vm a ts' r c' k' h' iv n' v' sr' ss'
                     (run vm cs (snd (sendMessage vm a ts r c k h iv n v sr ss s)))) = Inl Sha256HashZero)
       \<and> (h' \<noteq> 0
            \<and> ucast ts' < lastSentAt (run vm cs (snd (sendMessage vm a ts r c k h iv n v sr ss s))) a
          \<longrightarrow> fst (sendMessage vm a ts' r c' k' h' iv n' v' sr' ss'
                     (run vm cs (snd (sendMessage vm a ts r c k h iv n v sr ss s)))) = Inl ArithmeticPanic)
       \<and> (h' \<noteq> 0
            \<and> lastSentAt (run vm cs (snd (sendMessage vm a ts r c k h iv n v sr ss s))) a \<le> ucast ts'
            \<and> \<not> minIntervalSeconds (run vm cs (snd (sendMessage vm a ts r c k h iv n v sr ss s)))
                 \<le> ucast ts' - lastSentAt (run vm cs (snd (sendMessage vm a ts r c k h iv n v sr ss s))) a
          \<longrightarrow> fst (sendMessage vm a ts' r c' k' h' iv n' v' sr' ss'
                     (run vm cs (snd (sendMessage vm a ts r c k h iv n v sr ss s)))) = Inl RateLimited)"
proof -
  let ?s1 = "snd (sendMessage vm a ts r c k h iv n v sr ss s)"
  let ?s2 = "run vm cs ?s1"
  have nz: "r \<noteq> 0" "iv \<noteq> 0" using assms by (simp_all add: sendMessage_accept_iff)
  have u1: "usedIV ?s1 a r iv" by (simp add: sendMessage_accept_state [OF assms])
  then have u2: "usedIV ?s2 a r iv" by (rule usedIV_run)
  obtain e where e: "fst (sendMessage vm a ts' r c' k' h' iv n' v' sr' ss' ?s2) = Inl e"
    using sendMessage_used_iv_fails [OF u2] by blast
  have same: "snd (sendMessage vm a ts' r c' k' h' iv n' v' sr' ss' ?s2) = ?s2"
    using e by (rule sendMessage_failed)
  have dup: "fst (sendMessage vm a ts' r c' k' h' iv n' v' sr' ss' ?s2) = Inl IVAlreadyUsed"
    if "h' \<noteq> 0" "lastSentAt ?s2 a \<le> ucast ts'"
      "minIntervalSeconds ?s2 \<le> ucast ts' - lastSentAt ?s2 a"
    using sendMessage_duplicate_iv [OF u2 nz(1) that(1) nz(2) that(2,3)] .
  have ex: "\<exists>e. fst (sendMessage vm a ts' r c' k' h' iv n' v' sr' ss' ?s2) = Inl e"
    using e by blast
  have zero: "fst (sendMessage vm a ts' r c' k' h' iv n' v' sr' ss' ?s2) = Inl Sha256HashZero"
    if "h' = 0"
    using sendMessage_kinds(2) [OF nz(1) that] .
  have panic: "fst (sendMessage vm a ts' r c' k' h' iv n' v' sr' ss' ?s2) = Inl ArithmeticPanic"
    if "h' \<noteq> 0" "ucast ts' < lastSentAt ?s2 a"
    using sendMessage_kinds(4) [OF nz(1) that(1) nz(2) that(2)] .
  have limited: "fst (sendMessage vm a ts' r c' k' h' iv n' v' sr' ss' ?s2) = Inl RateLimited"
    if "h' \<noteq> 0" "lastSentAt ?s2 a \<le> ucast ts'"
      "\<not> minIntervalSeconds ?s2 \<le> ucast ts' - lastSentAt ?s2 a"
    using sendMessage_kinds(5) [OF nz(1) that(1) nz(2) that(2,3)] .
  show ?thesis
    unfolding isIVUsed_def using u1 u2 ex same dup zero panic limited
    by (intro conjI impI) blast+
qed

theorem iv_unique_witness:
  "isIVUsed first_sent 1 2 7
   \<and> fst (sendMessage toy_evm 1 200 2 ''local://c9'' ''local://k9'' 4 7 2 0 0 0
         (run toy_evm [SetMinInterval 9 0, RegisterRSAPublicKey 2 150 5 ''ipfs://k''] first_sent))
       = Inl IVAlreadyUsed"
proof -
  have st: "run toy_evm [SetMinInterval 9 0, RegisterRSAPublicKey 2 150 5 ''ipfs://k''] first_sent
     = first_sent\<lparr>minIntervalSeconds := 0,
         keyRegistry := (keyRegistry first_sent)(2 :=
            \<lparr>k_rsaPubKeySha256 = 5, k_rsaPubKeyURI = ''ipfs://k'', k_updatedAt = 150\<rparr>),
         events := events first_sent @ [MinIntervalUpdated 0, KeyRegistered 2 5 ''ipfs://k'' 150]\<rparr>"
    by (simp add: setMinInterval_eq registerRSAPublicKey_eq)
  show ?thesis
    using iv_unique [OF first_sent_accepted, where cs = "[SetMinInterval 9 0, RegisterRSAPublicKey 2 150 5 ''ipfs://k'']"
        and ts' = 200 and h' = 4 and c' = "''local://c9''" and k' = "''local://k9''"
        and n' = 2 and v' = 0 and sr' = 0 and ss' = 0]
    unfolding first_sent_def [symmetric] st
    by (simp add: first_sent_fields)
qed

subsection \<open>The optional signature\<close>

text \<open>
  A signature of another identity does not always give \<^verbatim>\<open>"bad signature"\<close>: the signature
  is looked at last. Here the signer recovered is account 9, the sender is account 1,
  and the call reverts with \<^verbatim>\<open>"rate-limited"\<close>, or with \<^verbatim>\<open>"recipient=0"\<close>.
\<close>

theorem other_signer_not_always_BadSignature_counterexample:
  "ecrecover toy_evm (ethMsgHash_of toy_evm 1 2 105 3 8 (keccak256 toy_evm (bytes_of ''c''))
       (keccak256 toy_evm (bytes_of ''k'')) 2) 27 9 5 = 9
   \<and> fst (sendMessage toy_evm 1 105 2 ''c'' ''k'' 3 8 2 27 9 5 first_sent) = Inl RateLimited
   \<and> fst (sendMessage toy_evm 1 110 0 ''c'' ''k'' 3 8 2 27 9 5 first_sent) = Inl RecipientZero"
  by (simp add: sendMessage_def transaction_fst sendMessage_body_def Let_def first_sent_fields)
     (simp add: toy_evm_def)

text \<open>
  Claim C5, as amended. A submission with \<open>v\<close>, \<open>r\<close> and \<open>s\<close> all zero never depends on the
  signer recovery. For a submission that passes the input, rate-limit, IV and nonce checks:
  when the three are zero it is accepted; when one of them is not zero, it fails with
  \<^verbatim>\<open>"bad signature"\<close> exactly when the signer recovered from the commitment (in the
  signed-message envelope) is not the sender, and is accepted exactly when it is the sender;
  so a signature by any identity other than the sender gives \<^verbatim>\<open>"bad signature"\<close> there.
  (Acceptance also needs a free message id.) Whatever the signature, a submission that does
  not pass an earlier check fails with the failure of the first such check: a zero
  recipient, digest or IV (in this order), a time before \<open>lastSentAt\<close> (panic), the rate
  limit, a used IV, a counter at its maximum (panic), a wrong nonce.
\<close>

theorem signature_check:
  "sendMessage (vm\<lparr>ecrecover := recover\<rparr>) a ts r c k h iv n 0 0 0 s
     = sendMessage vm a ts r c k h iv n 0 0 0 s
   \<and> (r \<noteq> 0 \<and> h \<noteq> 0 \<and> iv \<noteq> 0 \<and> lastSentAt s a \<le> ucast ts
        \<and> minIntervalSeconds s \<le> ucast ts - lastSentAt s a \<and> \<not> usedIV s a r iv
        \<and> lastNonce s a \<noteq> - 1 \<and> n = lastNonce s a + 1 \<longrightarrow>
          (nextMessageId s \<noteq> - 1 \<longrightarrow> fst (sendMessage vm a ts r c k h iv n 0 0 0 s) = Inr ())
        \<and> (v \<noteq> 0 \<or> sr \<noteq> 0 \<or> ss \<noteq> 0 \<longrightarrow>
             (fst (sendMessage vm a ts r c k h iv n v sr ss s) = Inl BadSignature
                \<longleftrightarrow> ecrecover vm (ethMsgHash_of vm a r (ucast ts) h iv (keccak256 vm (bytes_of c))
                      (keccak256 vm (bytes_of k)) n) v sr ss \<noteq> a)
           \<and> (nextMessageId s \<noteq> - 1 \<longrightarrow>
               (fst (sendMessage vm a ts r c k h iv n v sr ss s) = Inr ()
                \<longleftrightarrow> ecrecover vm (ethMsgHash_of vm a r (ucast ts) h iv (keccak256 vm (bytes_of c))
                      (keccak256 vm (bytes_of k)) n) v sr ss = a)))
        \<and> (v \<noteq> 0 \<or> sr \<noteq> 0 \<or> ss \<noteq> 0 \<longrightarrow>
             ecrecover vm (ethMsgHash_of vm a r (ucast ts) h iv (keccak256 vm (bytes_of c))
                      (keccak256 vm (bytes_of k)) n) v sr ss = signer \<and> signer \<noteq> a \<longrightarrow>
             fst (sendMessage vm a ts r c k h iv n v sr ss s) = Inl BadSignature))
   \<and> (r = 0 \<longrightarrow> fst (sendMessage vm a ts r c k h iv n v sr ss s) = Inl RecipientZero)
   \<and> (r \<noteq> 0 \<and> h = 0 \<longrightarrow> fst (sendMessage vm a ts r c k h iv n v sr ss s) = Inl Sha256HashZero)
   \<and> (r \<noteq> 0 \<and> h \<noteq> 0 \<and> iv = 0 \<longrightarrow>
        fst (sendMessage vm a ts r c k h iv n v sr ss s) = Inl IvZero)
   \<and> (r \<noteq> 0 \<and> h \<noteq> 0 \<and> iv \<noteq> 0 \<and> ucast ts < lastSentAt s a \<longrightarrow>
        fst (sendMessage vm a ts r c k h iv n v sr ss s) = Inl ArithmeticPanic)
   \<and> (r \<noteq> 0 \<and> h \<noteq> 0 \<and> iv \<noteq> 0 \<and> lastSentAt s a \<le> ucast ts
        \<and> \<not> minIntervalSeconds s \<le> ucast ts - lastSentAt s a \<longrightarrow>
        fst (sendMessage vm a ts r c k h iv n v sr ss s) = Inl RateLimited)
   \<and> (r \<noteq> 0 \<and> h \<noteq> 0 \<and> iv \<noteq> 0 \<and> lastSentAt s a \<le> ucast ts
        \<and> minIntervalSeconds s \<le> ucast ts - lastSentAt s a \<and> usedIV s a r iv \<longrightarrow>
        fst (sendMessage vm a ts r c k h iv n v sr ss s) = Inl IVAlreadyUsed)
   \<and> (r \<noteq> 0 \<and> h \<noteq> 0 \<and> iv \<noteq> 0 \<and> lastSentAt s a \<le> ucast ts
        \<and> minIntervalSeconds s \<le> ucast ts - lastSentAt s a \<and> \<not> usedIV s a r iv
        \<and> lastNonce s a = - 1 \<longrightarrow>
        fst (sendMessage vm a ts r c k h iv n v sr ss s) = Inl ArithmeticPanic)
   \<and> (r \<noteq> 0 \<and> h \<noteq> 0 \<and> iv \<noteq> 0 \<and> lastSentAt s a \<le> ucast ts
        \<and> minIntervalSeconds s \<le> ucast ts - lastSentAt s a \<and> \<not> usedIV s a r iv
        \<and> lastNonce s a \<noteq> - 1 \<and> n \<noteq> lastNonce s a + 1 \<longrightarrow>
        fst (sendMessage vm a ts r c k h iv n v sr ss s) = Inl BadNonce)"
proof -
  have unsigned: "sendMessage_body (vm\<lparr>ecrecover := recover\<rparr>) a ts r c k h iv n 0 0 0 s
           = sendMessage_body vm a ts r c k h iv n 0 0 0 s"
    by (simp add: sendMessage_body_def Let_def)
  have 1: "sendMessage (vm\<lparr>ecrecover := recover\<rparr>) a ts r c k h iv n 0 0 0 s
           = sendMessage vm a ts r c k h iv n 0 0 0 s"
    by (simp add: sendMessage_def transaction_def unsigned)
  have 2: "(nextMessageId s \<noteq> - 1 \<longrightarrow> fst (sendMessage vm a ts r c k h iv n 0 0 0 s) = Inr ())
        \<and> (v \<noteq> 0 \<or> sr \<noteq> 0 \<or> ss \<noteq> 0 \<longrightarrow>
             (fst (sendMessage vm a ts r c k h iv n v sr ss s) = Inl BadSignature
                \<longleftrightarrow> ecrecover vm (ethMsgHash_of vm a r (ucast ts) h iv (keccak256 vm (bytes_of c))
                      (keccak256 vm (bytes_of k)) n) v sr ss \<noteq> a)
           \<and> (nextMessageId s \<noteq> - 1 \<longrightarrow>
               (fst (sendMessage vm a ts r c k h iv n v sr ss s) = Inr ()
                \<longleftrightarrow> ecrecover vm (ethMsgHash_of vm a r (ucast ts) h iv (keccak256 vm (bytes_of c))
                      (keccak256 vm (bytes_of k)) n) v sr ss = a)))
        \<and> (v \<noteq> 0 \<or> sr \<noteq> 0 \<or> ss \<noteq> 0 \<longrightarrow>
             ecrecover vm (ethMsgHash_of vm a r (ucast ts) h iv (keccak256 vm (bytes_of c))
                      (keccak256 vm (bytes_of k)) n) v sr ss = signer \<and> signer \<noteq> a \<longrightarrow>
             fst (sendMessage vm a ts r c k h iv n v sr ss s) = Inl BadSignature)"
    if pre: "r \<noteq> 0 \<and> h \<noteq> 0 \<and> iv \<noteq> 0 \<and> lastSentAt s a \<le> ucast ts
        \<and> minIntervalSeconds s \<le> ucast ts - lastSentAt s a \<and> \<not> usedIV s a r iv
        \<and> lastNonce s a \<noteq> - 1 \<and> n = lastNonce s a + 1"
  proof -
    from pre have p: "r \<noteq> 0" "h \<noteq> 0" "iv \<noteq> 0" "lastSentAt s a \<le> ucast ts"
      "minIntervalSeconds s \<le> ucast ts - lastSentAt s a" "\<not> usedIV s a r iv"
      "lastNonce s a \<noteq> - 1" "n = lastNonce s a + 1"
      by simp_all
    have ok0: "fst (sendMessage vm a ts r c k h iv n 0 0 0 s) = Inr ()" if "nextMessageId s \<noteq> - 1"
      using p that by (simp add: sendMessage_accept_iff)
    have bad: "fst (sendMessage vm a ts r c k h iv n v sr ss s) = Inl BadSignature
       \<longleftrightarrow> (v \<noteq> 0 \<or> sr \<noteq> 0 \<or> ss \<noteq> 0) \<and>
           ecrecover vm (ethMsgHash_of vm a r (ucast ts) h iv (keccak256 vm (bytes_of c))
                      (keccak256 vm (bytes_of k)) n) v sr ss \<noteq> a"
      using p by (simp add: sendMessage_def transaction_fst sendMessage_body_def Let_def not_less)
    have ok: "fst (sendMessage vm a ts r c k h iv n v sr ss s) = Inr ()
       \<longleftrightarrow> (v = 0 \<and> sr = 0 \<and> ss = 0) \<or>
           ecrecover vm (ethMsgHash_of vm a r (ucast ts) h iv (keccak256 vm (bytes_of c))
                      (keccak256 vm (bytes_of k)) n) v sr ss = a"
      if "nextMessageId s \<noteq> - 1"
      using p that by (simp add: sendMessage_accept_iff)
    show ?thesis
      unfolding bad using ok0 ok by blast
  qed
  show ?thesis
    apply (intro conjI)
    subgoal by (rule 1)
    subgoal using 2 by blast
    subgoal by (simp add: sendMessage_kinds(1))
    subgoal by (simp add: sendMessage_kinds(2))
    subgoal by (simp add: sendMessage_kinds(3))
    subgoal by (simp add: sendMessage_kinds(4))
    subgoal by (simp add: sendMessage_kinds(5))
    subgoal by (simp add: sendMessage_kinds(6))
    subgoal by (simp add: sendMessage_kinds(7))
    subgoal by (simp add: sendMessage_kinds(8))
    done
qed

theorem signature_check_witness:
  "fst (sendMessage toy_evm 1 110 2 ''c'' ''k'' 3 8 2 0 0 0 first_sent) = Inr ()
   \<and> fst (sendMessage toy_evm 1 110 2 ''c'' ''k'' 3 8 2 27 9 5 first_sent) = Inl BadSignature
   \<and> fst (sendMessage toy_evm 1 110 2 ''c'' ''k'' 3 8 2 27 1 5 first_sent) = Inr ()
   \<and> fst (sendMessage toy_evm 1 110 2 ''c'' ''k'' 3 8 9 27 9 5 first_sent) = Inl BadNonce"
proof -
  have rec: "ecrecover toy_evm hash v r s = ucast r" for hash v r s
    by (simp add: toy_evm_def)
  have pre: "(2 :: address) \<noteq> 0 \<and> (3 :: bytes32) \<noteq> 0 \<and> (8 :: bytes12) \<noteq> 0
    \<and> lastSentAt first_sent 1 \<le> ucast (110 :: uint256)
    \<and> minIntervalSeconds first_sent \<le> ucast (110 :: uint256) - lastSentAt first_sent 1
    \<and> \<not> usedIV first_sent 1 2 8 \<and> lastNonce first_sent 1 \<noteq> - 1
    \<and> (2 :: uint128) = lastNonce first_sent 1 + 1"
    by (simp add: first_sent_fields)
  have free: "nextMessageId first_sent \<noteq> - 1" by (simp add: first_sent_fields)
  note t = signature_check [where vm = toy_evm and c = "''c''" and k = "''k''" and s = first_sent
      and a = 1 and ts = 110 and r = 2 and h = 3 and iv = 8 and n = 2
      and v = 0 and sr = 0 and ss = 0,
      THEN conjunct2, THEN conjunct1, THEN mp, OF pre]
  note bad = signature_check [where vm = toy_evm and c = "''c''" and k = "''k''" and s = first_sent
      and a = 1 and ts = 110 and r = 2 and h = 3 and iv = 8 and n = 2
      and v = 27 and sr = 9 and ss = 5,
      THEN conjunct2, THEN conjunct1, THEN mp, OF pre]
  note good = signature_check [where vm = toy_evm and c = "''c''" and k = "''k''" and s = first_sent
      and a = 1 and ts = 110 and r = 2 and h = 3 and iv = 8 and n = 2
      and v = 27 and sr = 1 and ss = 5,
      THEN conjunct2, THEN conjunct1, THEN mp, OF pre]
  have 1: "fst (sendMessage toy_evm 1 110 2 ''c'' ''k'' 3 8 2 0 0 0 first_sent) = Inr ()"
    using t free by blast
  have nz: "(27 :: uint8) \<noteq> 0" by simp
  have "ecrecover toy_evm (ethMsgHash_of toy_evm 1 2 (ucast (110 :: uint256)) 3 8
          (keccak256 toy_evm (bytes_of ''c'')) (keccak256 toy_evm (bytes_of ''k'')) 2) 27 9 5 \<noteq> 1"
    unfolding rec by simp
  then have 2: "fst (sendMessage toy_evm 1 110 2 ''c'' ''k'' 3 8 2 27 9 5 first_sent) = Inl BadSignature"
    using bad nz by blast
  have "ecrecover toy_evm (ethMsgHash_of toy_evm 1 2 (ucast (110 :: uint256)) 3 8
          (keccak256 toy_evm (bytes_of ''c'')) (keccak256 toy_evm (bytes_of ''k'')) 2) 27 1 5 = 1"
    unfolding rec by simp
  then have 3: "fst (sendMessage toy_evm 1 110 2 ''c'' ''k'' 3 8 2 27 1 5 first_sent) = Inr ()"
    using good nz free by blast
  have pre9: "(2 :: address) \<noteq> 0 \<and> (3 :: bytes32) \<noteq> 0 \<and> (8 :: bytes12) \<noteq> 0
    \<and> lastSentAt first_sent 1 \<le> ucast (110 :: uint256)
    \<and> minIntervalSeconds first_sent \<le> ucast (110 :: uint256) - lastSentAt first_sent 1
    \<and> \<not> usedIV first_sent 1 2 8 \<and> lastNonce first_sent 1 \<noteq> - 1
    \<and> (9 :: uint128) \<noteq> lastNonce first_sent 1 + 1"
    by (simp add: first_sent_fields)
  have 4: "fst (sendMessage toy_evm 1 110 2 ''c'' ''k'' 3 8 9 27 9 5 first_sent) = Inl BadNonce"
    using signature_check [where vm = toy_evm and c = "''c''" and k = "''k''" and s = first_sent
      and a = 1 and ts = 110 and r = 2 and h = 3 and iv = 8 and n = 9 and v = 27 and sr = 9 and ss = 5,
      THEN conjunct2, THEN conjunct2, THEN conjunct2, THEN conjunct2, THEN conjunct2,
      THEN conjunct2, THEN conjunct2, THEN conjunct2, THEN conjunct2, THEN mp, OF pre9] .
  show ?thesis using 1 2 3 4 by blast
qed

subsection \<open>What the ledger receives and what it stores\<close>

text \<open>
  The client hands the two locators themselves to \<^verbatim>\<open>sendMessage\<close>: they are the string
  arguments of the call it makes.
\<close>

theorem ledger_receives_locators_counterexample:
  "onSend_call deployed 1 100 2 ''local://c1'' ''local://k1'' 3 7
     = Some (SendMessage 1 100 2 ''local://c1'' ''local://k1'' 3 7 1 0 0 0)
   \<and> string_arguments (SendMessage 1 100 2 ''local://c1'' ''local://k1'' 3 7 1 0 0 0)
     = [''local://c1'', ''local://k1'']"
  by (simp add: onSend_call_def deployed_def Let_def)

text \<open>
  Claim C6, as amended. The call the client makes carries the content locator and the key
  locator as they are. The ledger hashes them itself. An accepted submission changes the
  ledger in exactly this way: the sender's \<open>lastSentAt\<close>, the used-IV mark and \<open>lastNonce\<close>
  are set, the id counter advances, the id is appended to the recipient's inbox and the
  sender's outbox, the message stored under the new id holds \<^verbatim>\<open>keccak256\<close> of the bytes of
  each locator (with the sender, recipient, time, digest, IV, nonce and signature), and
  exactly one event is appended, a \<^verbatim>\<open>MessageSent\<close> with the same two hashes. Nothing else is
  written: the key registry (the only strings in the storage) and every other message are
  as before. A submission that fails stores and emits nothing.
\<close>

theorem ledger_stores_commitments:
  "(onSend_call s me ts r contentCID keyCID h iv = Some call \<longrightarrow>
       string_arguments call = [contentCID, keyCID]
       \<and> exec vm call s = sendMessage vm me ts r contentCID keyCID h iv (lastNonce s me + 1) 0 0 0 s)
   \<and> (fst (sendMessage vm a ts r contentCID keyCID h iv n v sr ss s) = Inr () \<longrightarrow>
        snd (sendMessage vm a ts r contentCID keyCID h iv n v sr ss s) =
            s\<lparr>lastSentAt := (lastSentAt s)(a := ucast ts),
              usedIV := (usedIV s)(a := (usedIV s a)(r := (usedIV s a r)(iv := True))),
              lastNonce := (lastNonce s)(a := n),
              nextMessageId := nextMessageId s + 1,
              messages := (messages s)(nextMessageId s :=
                 \<lparr>m_id = nextMessageId s, m_sender = a, m_recipient = r,
                  m_timestamp = ucast ts, m_sha256Hash = h, m_iv = iv,
                  m_contentCidHash = keccak256 vm (bytes_of contentCID),
                  m_keyCidHash = keccak256 vm (bytes_of keyCID),
                  m_nonce = n, m_sigR = sr, m_sigS = ss, m_sigV = v\<rparr>),
              inboxIndex := (inboxIndex s)(r := inboxIndex s r @ [nextMessageId s]),
              outboxIndex := (outboxIndex s)(a := outboxIndex s a @ [nextMessageId s]),
              events := events s @ [MessageSent (nextMessageId s) a r (ucast ts) h iv
                 (keccak256 vm (bytes_of contentCID)) (keccak256 vm (bytes_of keyCID)) n]\<rparr>
        \<and> events (snd (sendMessage vm a ts r contentCID keyCID h iv n v sr ss s))
            = events s @ [MessageSent (nextMessageId s) a r (ucast ts) h iv
                (keccak256 vm (bytes_of contentCID)) (keccak256 vm (bytes_of keyCID)) n]
        \<and> m_contentCidHash (messages (snd (sendMessage vm a ts r contentCID keyCID h iv n v sr ss s))
            (nextMessageId s)) = keccak256 vm (bytes_of contentCID)
        \<and> m_keyCidHash (messages (snd (sendMessage vm a ts r contentCID keyCID h iv n v sr ss s))
            (nextMessageId s)) = keccak256 vm (bytes_of keyCID)
        \<and> last (events (snd (sendMessage vm a ts r contentCID keyCID h iv n v sr ss s)))
            = MessageSent (nextMessageId s) a r (ucast ts) h iv
                (keccak256 vm (bytes_of contentCID)) (keccak256 vm (bytes_of keyCID)) n
        \<and> keyRegistry (snd (sendMessage vm a ts r contentCID keyCID h iv n v sr ss s)) = keyRegistry s)
   \<and> (fst (sendMessage vm a ts r contentCID keyCID h iv n v sr ss s) \<noteq> Inr () \<longrightarrow>
        snd (sendMessage vm a ts r contentCID keyCID h iv n v sr ss s) = s)"
proof -
  have 1: "string_arguments call = [contentCID, keyCID]
       \<and> exec vm call s = sendMessage vm me ts r contentCID keyCID h iv (lastNonce s me + 1) 0 0 0 s"
    if "onSend_call s me ts r contentCID keyCID h iv = Some call"
    using that by (auto simp: onSend_call_def Let_def add.commute split: if_splits)
  have 2: "snd (sendMessage vm a ts r contentCID keyCID h iv n v sr ss s) =
            s\<lparr>lastSentAt := (lastSentAt s)(a := ucast ts),
              usedIV := (usedIV s)(a := (usedIV s a)(r := (usedIV s a r)(iv := True))),
              lastNonce := (lastNonce s)(a := n),
              nextMessageId := nextMessageId s + 1,
              messages := (messages s)(nextMessageId s :=
                 \<lparr>m_id = nextMessageId s, m_sender = a, m_recipient = r,
                  m_timestamp = ucast ts, m_sha256Hash = h, m_iv = iv,
                  m_contentCidHash = keccak256 vm (bytes_of contentCID),
                  m_keyCidHash = keccak256 vm (bytes_of keyCID),
                  m_nonce = n, m_sigR = sr, m_sigS = ss, m_sigV = v\<rparr>),
              inboxIndex := (inboxIndex s)(r := inboxIndex s r @ [nextMessageId s]),
              outboxIndex := (outboxIndex s)(a := outboxIndex s a @ [nextMessageId s]),
              events := events s @ [MessageSent (nextMessageId s) a r (ucast ts) h iv
                 (keccak256 vm (bytes_of contentCID)) (keccak256 vm (bytes_of keyCID)) n]\<rparr>
        \<and> events (snd (sendMessage vm a ts r contentCID keyCID h iv n v sr ss s))
            = events s @ [MessageSent (nextMessageId s) a r (ucast ts) h iv
                (keccak256 vm (bytes_of contentCID)) (keccak256 vm (bytes_of keyCID)) n]
        \<and> m_contentCidHash (messages (snd (sendMessage vm a ts r contentCID keyCID h iv n v sr ss s))
            (nextMessageId s)) = keccak256 vm (bytes_of contentCID)
        \<and> m_keyCidHash (messages (snd (sendMessage vm a ts r contentCID keyCID h iv n v sr ss s))
            (nextMessageId s)) = keccak256 vm (bytes_of keyCID)
        \<and> last (events (snd (sendMessage vm a ts r contentCID keyCID h iv n v sr ss s)))
            = MessageSent (nextMessageId s) a r (ucast ts) h iv
                (keccak256 vm (bytes_of contentCID)) (keccak256 vm (bytes_of keyCID)) n
        \<and> keyRegistry (snd (sendMessage vm a ts r contentCID keyCID h iv n v sr ss s)) = keyRegistry s"
    if ok: "fst (sendMessage vm a ts r contentCID keyCID h iv n v sr ss s) = Inr ()"
    by (simp add: sendMessage_accept_state [OF ok])
  have 3: "snd (sendMessage vm a ts r contentCID keyCID h iv n v sr ss s) = s"
    if "fst (sendMessage vm a ts r contentCID keyCID h iv n v sr ss s) \<noteq> Inr ()"
    using that sendMessage_cases [of vm a ts r contentCID keyCID h iv n v sr ss s]
      sendMessage_failed [of vm a ts r contentCID keyCID h iv n v sr ss s]
    by blast
  show ?thesis using 1 2 3 by blast
qed

theorem ledger_stores_commitments_witness:
  "string_arguments (SendMessage 1 100 2 ''local://c1'' ''local://k1'' 3 7 1 0 0 0)
     = [''local://c1'', ''local://k1'']
   \<and> m_contentCidHash (messages first_sent 1) = keccak256 toy_evm (bytes_of ''local://c1'')
   \<and> m_keyCidHash (messages first_sent 1) = 10
   \<and> events first_sent = [MessageSent 1 1 2 100 3 7 10 10 1]"
proof -
  have call: "onSend_call deployed 1 100 2 ''local://c1'' ''local://k1'' 3 7
     = Some (SendMessage 1 100 2 ''local://c1'' ''local://k1'' 3 7 1 0 0 0)"
    by (simp add: onSend_call_def deployed_def Let_def)
  have nid: "nextMessageId deployed = 1" by (simp add: deployed_def)
  have ev: "events deployed = []" by (simp add: deployed_def)
  have k: "keccak256 toy_evm (bytes_of ''local://k1'') = 10" by (simp add: toy_evm_def bytes_of_def)
  have c: "keccak256 toy_evm (bytes_of ''local://c1'') = 10" by (simp add: toy_evm_def bytes_of_def)
  note t = ledger_stores_commitments [where s = deployed and me = 1 and a = 1 and ts = 100
        and r = 2 and contentCID = "''local://c1''" and keyCID = "''local://k1''" and h = 3
        and iv = 7 and n = 1 and v = 0 and sr = 0 and ss = 0 and vm = toy_evm
        and call = "SendMessage 1 100 2 ''local://c1'' ''local://k1'' 3 7 1 0 0 0"]
  note acc = t [THEN conjunct2, THEN conjunct1, THEN mp, OF first_sent_accepted,
        THEN conjunct2, unfolded first_sent_def [symmetric] nid k c ev]
  have 1: "string_arguments (SendMessage 1 100 2 ''local://c1'' ''local://k1'' 3 7 1 0 0 0)
     = [''local://c1'', ''local://k1'']"
    using t [THEN conjunct1, THEN mp, OF call] by blast
  have 2: "m_contentCidHash (messages first_sent 1) = keccak256 toy_evm (bytes_of ''local://c1'')"
    using acc unfolding c by blast
  have 3: "m_keyCidHash (messages first_sent 1) = 10"
    using acc by blast
  have 4: "events first_sent = [MessageSent 1 1 2 100 3 7 10 10 1]"
    using acc by simp
  show ?thesis using 1 2 3 4 by blast
qed

section \<open>Properties of the inbox\<close>

lemma await_Inr: "await e f = Inr r \<longleftrightarrow> (\<exists>v. e = Inr v \<and> f v = Inr r)"
  by (cases e) (simp_all add: await_def)

lemma tryDecrypt_try_Inr:
  assumes "tryDecrypt_try pf it contentCID keyCID privRaw = Inr r"
  shows "r = it\<lparr>it_contentCID := contentCID, it_keyCID := keyCID,
              it_note := Some ''No encrypted data key (message sent when you had no public key).''\<rparr>
       \<or> r = it\<lparr>it_contentCID := contentCID, it_keyCID := keyCID,
              it_note := Some ''Integrity mismatch (on-chain hash != ciphertext hash).''\<rparr>
       \<or> (\<exists>jwk priv keyJson wrapped encKey rawKey aesKey contentJson iv_hex iv encoded ct sha plaintext.
            JSON_parse pf privRaw = Inr jwk
            \<and> importRsaPrivateKeyJwk pf jwk = Inr priv
            \<and> ipfsGetJson pf keyCID = Inr keyJson
            \<and> property (TypeError pf) keyJson ''encrypted_key_b64'' = Inr (Some wrapped)
            \<and> base64ToBytes pf (Some wrapped) = Inr encKey
            \<and> rsaOaepDecrypt pf priv encKey = Inr rawKey
            \<and> aesImportRaw pf rawKey = Inr aesKey
            \<and> ipfsGetJson pf contentCID = Inr contentJson
            \<and> property (TypeError pf) contentJson ''iv'' = Inr iv_hex
            \<and> hexToBytes pf iv_hex = Inr iv
            \<and> property (TypeError pf) contentJson ''ciphertext_b64'' = Inr encoded
            \<and> base64ToBytes pf encoded = Inr ct
            \<and> sha256Bytes pf ct = Inr sha
            \<and> toLowerCase pf sha = toLowerCase pf (it_sha256Hash it)
            \<and> aesDecrypt pf ct aesKey iv = Inr plaintext
            \<and> r = it\<lparr>it_contentCID := contentCID, it_keyCID := keyCID,
                     it_plaintext := Some plaintext\<rparr>)"
  using assms unfolding tryDecrypt_try_def
  by (auto simp: await_Inr split: if_splits)


lemma ipfsGetJson_aesDecrypt [simp]: "ipfsGetJson (pf\<lparr>aesDecrypt := d\<rparr>) uri = ipfsGetJson pf uri"
  by (simp add: ipfsGetJson_def Let_def split: option.splits json.splits)

lemma hexToBytes_aesDecrypt [simp]: "hexToBytes (pf\<lparr>aesDecrypt := d\<rparr>) v = hexToBytes pf v"
  by (simp add: hexToBytes_def Let_def split: option.splits json.splits)

lemma property_not_null: "m \<noteq> JNull \<Longrightarrow> \<exists>v. property te m name = Inr v"
  by (cases m) simp_all

lemma tryDecrypt_unknown:
  "empty_or_null (getItem pf (''msgmap:'' @ toString (it_id it))) \<Longrightarrow>
   tryDecrypt pf me it = Inr (it\<lparr>it_note := Some
      ''Off-chain CIDs unknown on this device (ask sender or use shared backend/IPFS).''\<rparr>)"
  by (simp add: tryDecrypt_def Let_def)

lemma tryDecrypt_known:
  assumes "\<not> empty_or_null (getItem pf (''msgmap:'' @ toString (it_id it)))"
    "JSON_parse pf (the (getItem pf (''msgmap:'' @ toString (it_id it)))) = Inr m"
    "property (TypeError pf) m ''contentCID'' = Inr contentCID"
    "property (TypeError pf) m ''keyCID'' = Inr keyCID"
  shows "tryDecrypt pf me it =
     (if empty_or_null (getItem pf (''rsa:priv:'' @ me))
      then Inr (it\<lparr>it_contentCID := contentCID, it_keyCID := keyCID,
             it_note := Some ''Private JWK not imported for this address.''\<rparr>)
      else case tryDecrypt_try pf it contentCID keyCID (the (getItem pf (''rsa:priv:'' @ me))) of
             Inr r \<Rightarrow> Inr r
           | Inl (Thrown message) \<Rightarrow>
               Inr (it\<lparr>it_contentCID := contentCID, it_keyCID := keyCID,
                 it_note := Some (case message of Some text \<Rightarrow> text | None \<Rightarrow> ''Decrypt failed'')\<rparr>))"
  using assms by (simp add: tryDecrypt_def Let_def await_def)

lemma tryDecrypt_total:
  assumes "correlation_readable pf it"
  shows "\<exists>r. tryDecrypt pf me it = Inr r"
proof (cases "empty_or_null (getItem pf (''msgmap:'' @ toString (it_id it)))")
  case True
  then show ?thesis by (simp add: tryDecrypt_unknown)
next
  case False
  then obtain m where m: "JSON_parse pf (the (getItem pf (''msgmap:'' @ toString (it_id it)))) = Inr m"
      and nn: "m \<noteq> JNull"
    using assms by (auto simp: correlation_readable_def Let_def split: sum.splits)
  obtain cc kc where p: "property (TypeError pf) m ''contentCID'' = Inr cc"
      "property (TypeError pf) m ''keyCID'' = Inr kc"
    using property_not_null [OF nn] by blast
  show ?thesis
    unfolding tryDecrypt_known [OF False m p]
    by (auto split: sum.splits thrown.splits)
qed

lemma tryDecrypt_Inr:
  assumes "tryDecrypt pf me it = Inr r"
  shows "(\<exists>note. it_note r = Some note \<and> it_plaintext r = it_plaintext it)
       \<or> (\<exists>privRaw. tryDecrypt_try pf it (it_contentCID r) (it_keyCID r) privRaw = Inr r
             \<and> (\<exists>plaintext. r = it\<lparr>it_contentCID := it_contentCID r, it_keyCID := it_keyCID r,
                     it_plaintext := Some plaintext\<rparr>))"
proof (cases "empty_or_null (getItem pf (''msgmap:'' @ toString (it_id it)))")
  case True
  then show ?thesis using assms by (auto simp: tryDecrypt_unknown)
next
  case False
  then obtain m cc kc where m: "JSON_parse pf (the (getItem pf (''msgmap:'' @ toString (it_id it)))) = Inr m"
      and p: "property (TypeError pf) m ''contentCID'' = Inr cc"
      "property (TypeError pf) m ''keyCID'' = Inr kc"
    using assms by (auto simp: tryDecrypt_def Let_def await_Inr)
  note k = tryDecrypt_known [OF False m p, of me]
  show ?thesis
  proof (cases "empty_or_null (getItem pf (''rsa:priv:'' @ me))")
    case True
    then show ?thesis using assms k by auto
  next
    case nokey: False
    let ?privRaw = "the (getItem pf (''rsa:priv:'' @ me))"
    show ?thesis
    proof (cases "tryDecrypt_try pf it cc kc ?privRaw")
      case (Inl e)
      then show ?thesis using assms k nokey by (cases e) auto
    next
      case (Inr r')
      then have r: "r' = r" using assms k nokey by simp
      from tryDecrypt_try_Inr [OF Inr [unfolded r]]
      show ?thesis using Inr r by auto
    qed
  qed
qed

lemma enrich_total:
  assumes "list_all (correlation_readable pf) base"
  shows "\<exists>rs. enrich pf me base = Inr rs \<and> length rs = length base
            \<and> (\<forall>i<length base. tryDecrypt pf me (base ! i) = Inr (rs ! i))"
  using assms
proof (induction base)
  case Nil
  then show ?case by simp
next
  case (Cons it base)
  then obtain r where r: "tryDecrypt pf me it = Inr r"
    using tryDecrypt_total by fastforce
  from Cons obtain rs where rs: "enrich pf me base = Inr rs" "length rs = length base"
      "\<forall>i<length base. tryDecrypt pf me (base ! i) = Inr (rs ! i)"
    by auto
  have "enrich pf me (it # base) = Inr (r # rs)"
    by (simp add: r rs(1) await_def)
  moreover have "\<forall>i<length (it # base). tryDecrypt pf me ((it # base) ! i) = Inr ((r # rs) ! i)"
    using r rs(3) by (auto simp: nth_Cons split: nat.splits)
  ultimately show ?case using rs(2) by auto
qed

lemma tryDecrypt_try_outcomes:
  "JSON_parse pf privRaw = Inr jwk \<longrightarrow> importRsaPrivateKeyJwk pf jwk = Inr priv \<longrightarrow>
     (ipfsGetJson pf keyCID = Inl e \<longrightarrow> tryDecrypt_try pf it contentCID keyCID privRaw = Inl e) \<and>
     (ipfsGetJson pf keyCID = Inr keyJson \<longrightarrow>
        (property (TypeError pf) keyJson ''encrypted_key_b64'' = Inr None \<longrightarrow>
           tryDecrypt_try pf it contentCID keyCID privRaw =
             Inr (it\<lparr>it_contentCID := contentCID, it_keyCID := keyCID,
               it_note := Some ''No encrypted data key (message sent when you had no public key).''\<rparr>)) \<and>
        (property (TypeError pf) keyJson ''encrypted_key_b64'' = Inr (Some wrapped) \<longrightarrow>
         base64ToBytes pf (Some wrapped) = Inr encKey \<longrightarrow>
           (rsaOaepDecrypt pf priv encKey = Inl e \<longrightarrow>
              tryDecrypt_try pf it contentCID keyCID privRaw = Inl e) \<and>
           (rsaOaepDecrypt pf priv encKey = Inr rawKey \<longrightarrow> aesImportRaw pf rawKey = Inr aesKey \<longrightarrow>
              (ipfsGetJson pf contentCID = Inl e \<longrightarrow>
                 tryDecrypt_try pf it contentCID keyCID privRaw = Inl e) \<and>
              (ipfsGetJson pf contentCID = Inr contentJson \<longrightarrow>
               property (TypeError pf) contentJson ''iv'' = Inr iv_hex \<longrightarrow>
               hexToBytes pf iv_hex = Inr iv \<longrightarrow>
               property (TypeError pf) contentJson ''ciphertext_b64'' = Inr encoded \<longrightarrow>
               base64ToBytes pf encoded = Inr ct \<longrightarrow>
               sha256Bytes pf ct = Inr sha \<longrightarrow>
                 (toLowerCase pf sha \<noteq> toLowerCase pf (it_sha256Hash it) \<longrightarrow>
                    tryDecrypt_try pf it contentCID keyCID privRaw =
                      Inr (it\<lparr>it_contentCID := contentCID, it_keyCID := keyCID,
                        it_note := Some ''Integrity mismatch (on-chain hash != ciphertext hash).''\<rparr>)) \<and>
                 (toLowerCase pf sha = toLowerCase pf (it_sha256Hash it) \<longrightarrow>
                    (aesDecrypt pf ct aesKey iv = Inl e \<longrightarrow>
                       tryDecrypt_try pf it contentCID keyCID privRaw = Inl e) \<and>
                    (aesDecrypt pf ct aesKey iv = Inr plaintext \<longrightarrow>
                       tryDecrypt_try pf it contentCID keyCID privRaw =
                         Inr (it\<lparr>it_contentCID := contentCID, it_keyCID := keyCID,
                           it_plaintext := Some plaintext\<rparr>)))))))"
  by (simp add: tryDecrypt_try_def await_def)

lemma tryDecrypt_try_plaintext:
  assumes "tryDecrypt_try pf it contentCID keyCID privRaw = Inr r"
    "it_plaintext it = None" "it_plaintext r = Some plaintext"
  shows "\<exists>contentJson encoded ct sha aesKey iv.
          ipfsGetJson pf contentCID = Inr contentJson
        \<and> property (TypeError pf) contentJson ''ciphertext_b64'' = Inr encoded
        \<and> base64ToBytes pf encoded = Inr ct
        \<and> sha256Bytes pf ct = Inr sha
        \<and> toLowerCase pf sha = toLowerCase pf (it_sha256Hash it)
        \<and> aesDecrypt pf ct aesKey iv = Inr plaintext"
proof -
  from tryDecrypt_try_Inr [OF assms(1)]
  consider (nokey) "it_plaintext r = it_plaintext it"
    | (decrypted) encoded ct sha aesKey iv contentJson plaintext'
      where "ipfsGetJson pf contentCID = Inr contentJson"
        "property (TypeError pf) contentJson ''ciphertext_b64'' = Inr encoded"
        "base64ToBytes pf encoded = Inr ct" "sha256Bytes pf ct = Inr sha"
        "toLowerCase pf sha = toLowerCase pf (it_sha256Hash it)"
        "aesDecrypt pf ct aesKey iv = Inr plaintext'"
        "it_plaintext r = Some plaintext'"
    by (elim disjE exE conjE) simp_all
  then show ?thesis
  proof cases
    case nokey
    then show ?thesis using assms(2,3) by simp
  next
    case decrypted
    then show ?thesis using assms(3) by auto
  qed
qed

lemma tryDecrypt_try_mismatch:
  assumes "ipfsGetJson pf contentCID = Inr contentJson"
    "property (TypeError pf) contentJson ''ciphertext_b64'' = Inr encoded"
    "base64ToBytes pf encoded = Inr ct"
    "sha256Bytes pf ct = Inr sha"
    "toLowerCase pf sha \<noteq> toLowerCase pf (it_sha256Hash it)"
  shows "tryDecrypt_try (pf\<lparr>aesDecrypt := decrypt\<rparr>) it contentCID keyCID privRaw
           = tryDecrypt_try pf it contentCID keyCID privRaw"
    and "tryDecrypt_try pf it contentCID keyCID privRaw = Inr r \<Longrightarrow>
           it_plaintext r = it_plaintext it \<and> it_note r \<noteq> None"
proof -
  show "tryDecrypt_try (pf\<lparr>aesDecrypt := decrypt\<rparr>) it contentCID keyCID privRaw
           = tryDecrypt_try pf it contentCID keyCID privRaw"
    using assms
    by (auto simp: tryDecrypt_try_def await_def split: sum.splits)
  show "it_plaintext r = it_plaintext it \<and> it_note r \<noteq> None"
    if "tryDecrypt_try pf it contentCID keyCID privRaw = Inr r"
    using tryDecrypt_try_Inr [OF that] assms by auto
qed

lemma toString_examples:
  "toString (Suc 0) = ''1''" "toString 1 = ''1''" "toString 2 = ''2''" "toString 3 = ''3''"
  by code_simp+


lemma toy_inbox_enriched: "enrich toy_platform ''0xme'' toy_inbox = Inr
  [(base_item 3 ''0xa1'' ''0xme'' 120 ''0xcd'' ''0x0102'')
     \<lparr>it_contentCID := Some (JStr ''local://c''), it_keyCID := Some (JStr ''local://k''),
      it_note := Some ''Integrity mismatch (on-chain hash != ciphertext hash).''\<rparr>,
   (base_item 2 ''0xa1'' ''0xme'' 110 ''0xab'' ''0x0102'')
     \<lparr>it_note := Some ''Off-chain CIDs unknown on this device (ask sender or use shared backend/IPFS).''\<rparr>,
   (base_item 1 ''0xa1'' ''0xme'' 100 ''0xab'' ''0x0102'')
     \<lparr>it_contentCID := Some (JStr ''local://c''), it_keyCID := Some (JStr ''local://k''),
      it_plaintext := Some ''hello''\<rparr>]"
  by (simp add: toy_inbox_def tryDecrypt_def tryDecrypt_try_def Let_def base_item_def toString_examples toy_platform_def await_def ipfsGetJson_def hexToBytes_def)


lemma toy_readable: "list_all (correlation_readable toy_platform) toy_inbox"
  by (simp add: toy_inbox_def correlation_readable_def base_item_def toString_examples
      toy_platform_def Let_def)

subsection \<open>The digest is compared before the cipher is opened\<close>

text \<open>
  Claim C7. When \<^verbatim>\<open>tryDecrypt\<close> gives an item a plaintext (the items built from the logs
  have none), the ciphertext it fetched under the item's content locator has a SHA-256 digest
  equal to the digest of the ledger record (both compared in lower case), and the plaintext
  is what the cipher opened from that very ciphertext. When the digest of the fetched
  ciphertext differs from the ledger's, the \<^verbatim>\<open>try\<close> block does not depend on the
  decryption function at all (it is not called), no result of the block carries a
  plaintext, every result carries a note, and once the key is unwrapped and the IV is read
  the result is the item with the note \<^verbatim>\<open>Integrity mismatch\<close>.
\<close>

theorem integrity_checked_before_plaintext:
  "(tryDecrypt pf me it = Inr r \<and> it_plaintext it = None \<and> it_plaintext r = Some plaintext \<longrightarrow>
      (\<exists>contentJson encoded ct sha aesKey iv.
          ipfsGetJson pf (it_contentCID r) = Inr contentJson
        \<and> property (TypeError pf) contentJson ''ciphertext_b64'' = Inr encoded
        \<and> base64ToBytes pf encoded = Inr ct
        \<and> sha256Bytes pf ct = Inr sha
        \<and> toLowerCase pf sha = toLowerCase pf (it_sha256Hash it)
        \<and> aesDecrypt pf ct aesKey iv = Inr plaintext))
   \<and> (ipfsGetJson pf contentCID = Inr contentJson'
        \<and> property (TypeError pf) contentJson' ''ciphertext_b64'' = Inr encoded'
        \<and> base64ToBytes pf encoded' = Inr ct'
        \<and> sha256Bytes pf ct' = Inr sha'
        \<and> toLowerCase pf sha' \<noteq> toLowerCase pf (it_sha256Hash it) \<longrightarrow>
          tryDecrypt_try (pf\<lparr>aesDecrypt := decrypt\<rparr>) it contentCID keyCID privRaw
            = tryDecrypt_try pf it contentCID keyCID privRaw
        \<and> (tryDecrypt_try pf it contentCID keyCID privRaw = Inr r' \<longrightarrow>
              it_plaintext r' = it_plaintext it \<and> it_note r' \<noteq> None)
        \<and> (JSON_parse pf privRaw = Inr jwk \<and> importRsaPrivateKeyJwk pf jwk = Inr priv
             \<and> ipfsGetJson pf keyCID = Inr keyJson
             \<and> property (TypeError pf) keyJson ''encrypted_key_b64'' = Inr (Some wrapped)
             \<and> base64ToBytes pf (Some wrapped) = Inr encKey
             \<and> rsaOaepDecrypt pf priv encKey = Inr rawKey
             \<and> aesImportRaw pf rawKey = Inr aesKey
             \<and> property (TypeError pf) contentJson' ''iv'' = Inr iv_hex
             \<and> hexToBytes pf iv_hex = Inr iv' \<longrightarrow>
              tryDecrypt_try pf it contentCID keyCID privRaw =
                Inr (it\<lparr>it_contentCID := contentCID, it_keyCID := keyCID,
                  it_note := Some ''Integrity mismatch (on-chain hash != ciphertext hash).''\<rparr>)))"
proof (intro conjI impI)
  assume a: "tryDecrypt pf me it = Inr r \<and> it_plaintext it = None \<and> it_plaintext r = Some plaintext"
  then obtain privRaw' where t: "tryDecrypt_try pf it (it_contentCID r) (it_keyCID r) privRaw' = Inr r"
    using tryDecrypt_Inr [of pf me it r] by auto
  from tryDecrypt_try_plaintext [OF t] a
  show "\<exists>contentJson encoded ct sha aesKey iv.
          ipfsGetJson pf (it_contentCID r) = Inr contentJson
        \<and> property (TypeError pf) contentJson ''ciphertext_b64'' = Inr encoded
        \<and> base64ToBytes pf encoded = Inr ct
        \<and> sha256Bytes pf ct = Inr sha
        \<and> toLowerCase pf sha = toLowerCase pf (it_sha256Hash it)
        \<and> aesDecrypt pf ct aesKey iv = Inr plaintext"
    by blast
next
  assume m: "ipfsGetJson pf contentCID = Inr contentJson'
        \<and> property (TypeError pf) contentJson' ''ciphertext_b64'' = Inr encoded'
        \<and> base64ToBytes pf encoded' = Inr ct'
        \<and> sha256Bytes pf ct' = Inr sha'
        \<and> toLowerCase pf sha' \<noteq> toLowerCase pf (it_sha256Hash it)"
  then have m': "ipfsGetJson pf contentCID = Inr contentJson'"
      "property (TypeError pf) contentJson' ''ciphertext_b64'' = Inr encoded'"
      "base64ToBytes pf encoded' = Inr ct'" "sha256Bytes pf ct' = Inr sha'"
      "toLowerCase pf sha' \<noteq> toLowerCase pf (it_sha256Hash it)"
    by simp_all
  show "tryDecrypt_try (pf\<lparr>aesDecrypt := decrypt\<rparr>) it contentCID keyCID privRaw
            = tryDecrypt_try pf it contentCID keyCID privRaw"
    by (rule tryDecrypt_try_mismatch(1) [OF m'])
  {
    assume "tryDecrypt_try pf it contentCID keyCID privRaw = Inr r'"
    from tryDecrypt_try_mismatch(2) [OF m' this]
    show "it_plaintext r' = it_plaintext it" and "it_note r' \<noteq> None" by simp_all
  }
  {
    assume "JSON_parse pf privRaw = Inr jwk \<and> importRsaPrivateKeyJwk pf jwk = Inr priv
             \<and> ipfsGetJson pf keyCID = Inr keyJson
             \<and> property (TypeError pf) keyJson ''encrypted_key_b64'' = Inr (Some wrapped)
             \<and> base64ToBytes pf (Some wrapped) = Inr encKey
             \<and> rsaOaepDecrypt pf priv encKey = Inr rawKey
             \<and> aesImportRaw pf rawKey = Inr aesKey
             \<and> property (TypeError pf) contentJson' ''iv'' = Inr iv_hex
             \<and> hexToBytes pf iv_hex = Inr iv'"
    then show "tryDecrypt_try pf it contentCID keyCID privRaw =
                Inr (it\<lparr>it_contentCID := contentCID, it_keyCID := keyCID,
                  it_note := Some ''Integrity mismatch (on-chain hash != ciphertext hash).''\<rparr>)"
      using m' by (simp add: tryDecrypt_try_def await_def)
  }
qed


theorem integrity_checked_before_plaintext_witness:
  "(\<exists>contentJson encoded ct sha aesKey iv.
          ipfsGetJson toy_platform (Some (JStr ''local://c'')) = Inr contentJson
        \<and> property (TypeError toy_platform) contentJson ''ciphertext_b64'' = Inr encoded
        \<and> base64ToBytes toy_platform encoded = Inr ct
        \<and> sha256Bytes toy_platform ct = Inr sha
        \<and> toLowerCase toy_platform sha = ''0xab''
        \<and> aesDecrypt toy_platform ct aesKey iv = Inr ''hello'')
   \<and> tryDecrypt_try toy_platform (base_item 3 ''0xa1'' ''0xme'' 120 ''0xcd'' ''0x0102'')
        (Some (JStr ''local://c'')) (Some (JStr ''local://k'')) ''private-jwk''
       = Inr ((base_item 3 ''0xa1'' ''0xme'' 120 ''0xcd'' ''0x0102'')
           \<lparr>it_contentCID := Some (JStr ''local://c''), it_keyCID := Some (JStr ''local://k''),
            it_note := Some ''Integrity mismatch (on-chain hash != ciphertext hash).''\<rparr>)"
proof -
  let ?it1 = "base_item 1 ''0xa1'' ''0xme'' 100 ''0xab'' ''0x0102''"
  let ?it3 = "base_item 3 ''0xa1'' ''0xme'' 120 ''0xcd'' ''0x0102''"
  let ?r1 = "?it1\<lparr>it_contentCID := Some (JStr ''local://c''), it_keyCID := Some (JStr ''local://k''),
      it_plaintext := Some ''hello''\<rparr>"
  have r1: "tryDecrypt toy_platform ''0xme'' ?it1 = Inr ?r1"
    by (simp add: tryDecrypt_def tryDecrypt_try_def Let_def base_item_def toString_examples
        toy_platform_def await_def ipfsGetJson_def hexToBytes_def)
  have f1: "it_plaintext ?it1 = None" "it_plaintext ?r1 = Some ''hello''"
    "it_contentCID ?r1 = Some (JStr ''local://c'')" "toLowerCase toy_platform (it_sha256Hash ?it1) = ''0xab''"
    by (simp_all add: base_item_def toy_platform_def)
  have fetched: "ipfsGetJson toy_platform (Some (JStr ''local://c''))
        = Inr (JObj [(''iv'', JStr ''0x0102''), (''ciphertext_b64'', JStr ''AQ=='')])"
      "ipfsGetJson toy_platform (Some (JStr ''local://k''))
        = Inr (JObj [(''encrypted_key_b64'', JStr ''AQ=='')])"
    by (simp_all add: ipfsGetJson_def toy_platform_def)
  have steps: "base64ToBytes toy_platform (Some (JStr ''AQ=='')) = Inr [1]"
      "sha256Bytes toy_platform [1] = Inr ''0xAB''"
      "toLowerCase toy_platform ''0xAB'' \<noteq> toLowerCase toy_platform (it_sha256Hash ?it3)"
      "JSON_parse toy_platform ''private-jwk'' = Inr (JObj [(''kty'', JStr ''RSA'')])"
      "importRsaPrivateKeyJwk toy_platform (JObj [(''kty'', JStr ''RSA'')]) = Inr ()"
      "rsaOaepDecrypt toy_platform () [1] = Inr [1]"
      "aesImportRaw toy_platform [1] = Inr [1]"
      "hexToBytes toy_platform (Some (JStr ''0x0102'')) = Inr [0, 0]"
    by (simp_all add: toy_platform_def base_item_def hexToBytes_def)
  note t1 = integrity_checked_before_plaintext [where pf = toy_platform and me = "''0xme''"
      and it = ?it1 and r = ?r1 and plaintext = "''hello''", THEN conjunct1]
  note t3 = integrity_checked_before_plaintext [where pf = toy_platform
      and it = ?it3 and contentCID = "Some (JStr ''local://c'')" and keyCID = "Some (JStr ''local://k'')"
      and privRaw = "''private-jwk''"
      and contentJson' = "JObj [(''iv'', JStr ''0x0102''), (''ciphertext_b64'', JStr ''AQ=='')]"
      and encoded' = "Some (JStr ''AQ=='')" and ct' = "[1]" and sha' = "''0xAB''"
      and jwk = "JObj [(''kty'', JStr ''RSA'')]" and priv = "()"
      and keyJson = "JObj [(''encrypted_key_b64'', JStr ''AQ=='')]" and wrapped = "JStr ''AQ==''"
      and encKey = "[1]" and rawKey = "[1]" and aesKey = "[1]"
      and iv_hex = "Some (JStr ''0x0102'')" and iv' = "[0, 0]", THEN conjunct2]
  have 1: "\<exists>contentJson encoded ct sha aesKey iv.
          ipfsGetJson toy_platform (Some (JStr ''local://c'')) = Inr contentJson
        \<and> property (TypeError toy_platform) contentJson ''ciphertext_b64'' = Inr encoded
        \<and> base64ToBytes toy_platform encoded = Inr ct
        \<and> sha256Bytes toy_platform ct = Inr sha
        \<and> toLowerCase toy_platform sha = ''0xab''
        \<and> aesDecrypt toy_platform ct aesKey iv = Inr ''hello''"
    using t1 r1 unfolding f1 by blast
  have 3: "tryDecrypt_try toy_platform ?it3
        (Some (JStr ''local://c'')) (Some (JStr ''local://k'')) ''private-jwk''
       = Inr (?it3\<lparr>it_contentCID := Some (JStr ''local://c''), it_keyCID := Some (JStr ''local://k''),
            it_note := Some ''Integrity mismatch (on-chain hash != ciphertext hash).''\<rparr>)"
    using t3 fetched steps by simp
  show ?thesis using 1 3 by blast
qed

subsection \<open>Receiving and the failure of single messages\<close>

text \<open>
  The loop goes on after every item for which \<^verbatim>\<open>tryDecrypt\<close> returns; it stops only
  when \<^verbatim>\<open>tryDecrypt\<close> itself throws, which it does when a correlation record is stored
  but cannot be parsed, or parses to \<^verbatim>\<open>null\<close>.
\<close>

lemma enrich_continues:
  "tryDecrypt pf me it = Inr r \<Longrightarrow>
   enrich pf me (it # base) = await (enrich pf me base) (\<lambda>rs. Inr (r # rs))"
  by (simp add: await_def)

lemma tryDecrypt_unparsed:
  "\<not> empty_or_null (getItem pf (''msgmap:'' @ toString (it_id it))) \<Longrightarrow>
   JSON_parse pf (the (getItem pf (''msgmap:'' @ toString (it_id it)))) = Inl e \<Longrightarrow>
   tryDecrypt pf me it = Inl e"
  by (simp add: tryDecrypt_def Let_def await_def)

lemma tryDecrypt_null_record:
  "\<not> empty_or_null (getItem pf (''msgmap:'' @ toString (it_id it))) \<Longrightarrow>
   JSON_parse pf (the (getItem pf (''msgmap:'' @ toString (it_id it)))) = Inr JNull \<Longrightarrow>
   tryDecrypt pf me it = Inl (TypeError pf)"
  by (simp add: tryDecrypt_def Let_def await_def)

lemma enrich_throws:
  "tryDecrypt pf me it = Inl e \<Longrightarrow> \<exists>e'. enrich pf me (before @ it # rest) = Inl e'"
proof (induction before)
  case Nil
  then show ?case by (simp add: await_def)
next
  case (Cons b before)
  then obtain e' where "enrich pf me (before @ it # rest) = Inl e'" by blast
  then show ?case by (cases "tryDecrypt pf me b") (simp_all add: await_def)
qed

lemma enrich_throws_first:
  "list_all (correlation_readable pf) before \<Longrightarrow> tryDecrypt pf me it = Inl e \<Longrightarrow>
   enrich pf me (before @ it # rest) = Inl e"
proof (induction before)
  case Nil
  then show ?case by (simp add: await_def)
next
  case (Cons b before)
  then have "enrich pf me (before @ it # rest) = Inl e" by simp
  moreover obtain r where "tryDecrypt pf me b = Inr r"
    using Cons.prems(1) tryDecrypt_total [of pf b me] by auto
  ultimately show ?case by (simp add: await_def)
qed

lemma garbled_record_stops_enrich:
  "enrich toy_platform ''0xme'' (base_item 4 ''0xa1'' ''0xme'' 130 ''0xab'' ''0x0102'' # toy_inbox)
     = Inl (Thrown (Some ''Unexpected token''))"
proof -
  have "toString 4 = ''4''" by code_simp
  then have "tryDecrypt toy_platform ''0xme'' (base_item 4 ''0xa1'' ''0xme'' 130 ''0xab'' ''0x0102'')
     = Inl (Thrown (Some ''Unexpected token''))"
    by (simp add: tryDecrypt_def Let_def base_item_def toy_platform_def await_def)
  then show ?thesis by (simp add: await_def)
qed

text \<open>
  What \<^verbatim>\<open>tryDecrypt\<close> does on the failures it handles. When the correlation records
  that are stored can be read, the loop returns
  one item for every inbox entry, in order, each the result of \<^verbatim>\<open>tryDecrypt\<close> on that
  entry, and an entry that comes back without plaintext has its note set. The failures,
  one by one: unknown locators and a missing private key give the item with their note; a
  throw anywhere in the \<^verbatim>\<open>try\<close> block gives the item with the thrown message (or
  \<^verbatim>\<open>Decrypt failed\<close>) as its note; inside the block, a failed fetch of either envelope, a
  failed unwrap and a failed opening of the cipher throw, an absent wrapped key and a
  digest mismatch return the item with their note; none of them sets a plaintext.
\<close>

theorem handled_failures_give_notes:
  "(list_all (correlation_readable pf) base \<longrightarrow>
      (\<exists>rs. enrich pf me base = Inr rs \<and> length rs = length base
         \<and> (\<forall>i<length base. tryDecrypt pf me (base ! i) = Inr (rs ! i)
               \<and> (it_plaintext (base ! i) = None \<and> it_plaintext (rs ! i) = None
                    \<longrightarrow> it_note (rs ! i) \<noteq> None))))
   \<and> (tryDecrypt pf me it = Inr r \<longrightarrow>
        enrich pf me (it # rest) = await (enrich pf me rest) (\<lambda>rs. Inr (r # rs)))
   \<and> (empty_or_null (getItem pf (''msgmap:'' @ toString (it_id it))) \<longrightarrow>
        tryDecrypt pf me it = Inr (it\<lparr>it_note := Some
          ''Off-chain CIDs unknown on this device (ask sender or use shared backend/IPFS).''\<rparr>))
   \<and> (\<not> empty_or_null (getItem pf (''msgmap:'' @ toString (it_id it)))
        \<and> JSON_parse pf (the (getItem pf (''msgmap:'' @ toString (it_id it)))) = Inr m
        \<and> property (TypeError pf) m ''contentCID'' = Inr contentCID
        \<and> property (TypeError pf) m ''keyCID'' = Inr keyCID \<longrightarrow>
          (empty_or_null (getItem pf (''rsa:priv:'' @ me)) \<longrightarrow>
             tryDecrypt pf me it = Inr (it\<lparr>it_contentCID := contentCID, it_keyCID := keyCID,
               it_note := Some ''Private JWK not imported for this address.''\<rparr>))
        \<and> (\<not> empty_or_null (getItem pf (''rsa:priv:'' @ me)) \<longrightarrow>
             (tryDecrypt_try pf it contentCID keyCID (the (getItem pf (''rsa:priv:'' @ me)))
                 = Inl (Thrown message) \<longrightarrow>
                tryDecrypt pf me it = Inr (it\<lparr>it_contentCID := contentCID, it_keyCID := keyCID,
                  it_note := Some (case message of Some text \<Rightarrow> text | None \<Rightarrow> ''Decrypt failed'')\<rparr>))
           \<and> (tryDecrypt_try pf it contentCID keyCID (the (getItem pf (''rsa:priv:'' @ me)))
                 = Inr r' \<longrightarrow> tryDecrypt pf me it = Inr r')))
   \<and> (JSON_parse pf privRaw = Inr jwk \<longrightarrow> importRsaPrivateKeyJwk pf jwk = Inr priv \<longrightarrow>
     (ipfsGetJson pf keyCID = Inl e \<longrightarrow> tryDecrypt_try pf it contentCID keyCID privRaw = Inl e) \<and>
     (ipfsGetJson pf keyCID = Inr keyJson \<longrightarrow>
        (property (TypeError pf) keyJson ''encrypted_key_b64'' = Inr None \<longrightarrow>
           tryDecrypt_try pf it contentCID keyCID privRaw =
             Inr (it\<lparr>it_contentCID := contentCID, it_keyCID := keyCID,
               it_note := Some ''No encrypted data key (message sent when you had no public key).''\<rparr>)) \<and>
        (property (TypeError pf) keyJson ''encrypted_key_b64'' = Inr (Some wrapped) \<longrightarrow>
         base64ToBytes pf (Some wrapped) = Inr encKey \<longrightarrow>
           (rsaOaepDecrypt pf priv encKey = Inl e \<longrightarrow>
              tryDecrypt_try pf it contentCID keyCID privRaw = Inl e) \<and>
           (rsaOaepDecrypt pf priv encKey = Inr rawKey \<longrightarrow> aesImportRaw pf rawKey = Inr aesKey \<longrightarrow>
              (ipfsGetJson pf contentCID = Inl e \<longrightarrow>
                 tryDecrypt_try pf it contentCID keyCID privRaw = Inl e) \<and>
              (ipfsGetJson pf contentCID = Inr contentJson \<longrightarrow>
               property (TypeError pf) contentJson ''iv'' = Inr iv_hex \<longrightarrow>
               hexToBytes pf iv_hex = Inr iv \<longrightarrow>
               property (TypeError pf) contentJson ''ciphertext_b64'' = Inr encoded \<longrightarrow>
               base64ToBytes pf encoded = Inr ct \<longrightarrow>
               sha256Bytes pf ct = Inr sha \<longrightarrow>
                 (toLowerCase pf sha \<noteq> toLowerCase pf (it_sha256Hash it) \<longrightarrow>
                    tryDecrypt_try pf it contentCID keyCID privRaw =
                      Inr (it\<lparr>it_contentCID := contentCID, it_keyCID := keyCID,
                        it_note := Some ''Integrity mismatch (on-chain hash != ciphertext hash).''\<rparr>)) \<and>
                 (toLowerCase pf sha = toLowerCase pf (it_sha256Hash it) \<longrightarrow>
                    aesDecrypt pf ct aesKey iv = Inl e \<longrightarrow>
                       tryDecrypt_try pf it contentCID keyCID privRaw = Inl e))))))"
proof -
  have 1: "\<exists>rs. enrich pf me base = Inr rs \<and> length rs = length base
         \<and> (\<forall>i<length base. tryDecrypt pf me (base ! i) = Inr (rs ! i)
               \<and> (it_plaintext (base ! i) = None \<and> it_plaintext (rs ! i) = None
                    \<longrightarrow> it_note (rs ! i) \<noteq> None))"
    if "list_all (correlation_readable pf) base"
  proof -
    from enrich_total [OF that, of me] obtain rs where rs: "enrich pf me base = Inr rs"
        "length rs = length base" "\<forall>i<length base. tryDecrypt pf me (base ! i) = Inr (rs ! i)"
      by blast
    have "it_note (rs ! i) \<noteq> None"
      if "i < length base" "it_plaintext (base ! i) = None" "it_plaintext (rs ! i) = None" for i
    proof -
      have "tryDecrypt pf me (base ! i) = Inr (rs ! i)" using rs(3) that(1) by blast
      from tryDecrypt_Inr [OF this] show ?thesis
      proof (elim disjE exE conjE)
        fix remark assume "it_note (rs ! i) = Some remark"
        then show ?thesis by simp
      next
        fix privRaw plaintext
        assume "rs ! i = (base ! i)\<lparr>it_contentCID := it_contentCID (rs ! i),
            it_keyCID := it_keyCID (rs ! i), it_plaintext := Some plaintext\<rparr>"
        then have "it_plaintext (rs ! i) = Some plaintext"
          by (metis Item.select_convs(9) Item.surjective Item.update_convs(9))
        then show ?thesis using that(3) by simp
      qed
    qed
    then show ?thesis using rs by blast
  qed
  have 2: "enrich pf me (it # rest) = await (enrich pf me rest) (\<lambda>rs. Inr (r # rs))"
    if "tryDecrypt pf me it = Inr r"
    using that by (rule enrich_continues)
  have 4: "(empty_or_null (getItem pf (''rsa:priv:'' @ me)) \<longrightarrow>
             tryDecrypt pf me it = Inr (it\<lparr>it_contentCID := contentCID, it_keyCID := keyCID,
               it_note := Some ''Private JWK not imported for this address.''\<rparr>))
        \<and> (\<not> empty_or_null (getItem pf (''rsa:priv:'' @ me)) \<longrightarrow>
             (tryDecrypt_try pf it contentCID keyCID (the (getItem pf (''rsa:priv:'' @ me)))
                 = Inl (Thrown message) \<longrightarrow>
                tryDecrypt pf me it = Inr (it\<lparr>it_contentCID := contentCID, it_keyCID := keyCID,
                  it_note := Some (case message of Some text \<Rightarrow> text | None \<Rightarrow> ''Decrypt failed'')\<rparr>))
           \<and> (tryDecrypt_try pf it contentCID keyCID (the (getItem pf (''rsa:priv:'' @ me)))
                 = Inr r' \<longrightarrow> tryDecrypt pf me it = Inr r'))"
    if "\<not> empty_or_null (getItem pf (''msgmap:'' @ toString (it_id it)))
        \<and> JSON_parse pf (the (getItem pf (''msgmap:'' @ toString (it_id it)))) = Inr m
        \<and> property (TypeError pf) m ''contentCID'' = Inr contentCID
        \<and> property (TypeError pf) m ''keyCID'' = Inr keyCID"
  proof -
    from that have k: "\<not> empty_or_null (getItem pf (''msgmap:'' @ toString (it_id it)))"
        "JSON_parse pf (the (getItem pf (''msgmap:'' @ toString (it_id it)))) = Inr m"
        "property (TypeError pf) m ''contentCID'' = Inr contentCID"
        "property (TypeError pf) m ''keyCID'' = Inr keyCID"
      by simp_all
    show ?thesis unfolding tryDecrypt_known [OF k] by simp
  qed
  show ?thesis
    apply (intro conjI)
    subgoal using 1 by blast
    subgoal using 2 by blast
    subgoal by (simp add: tryDecrypt_unknown)
    subgoal using 4 by blast
    subgoal using tryDecrypt_try_outcomes [of pf privRaw jwk priv keyCID e it contentCID keyJson
        wrapped encKey rawKey aesKey contentJson iv_hex iv encoded ct sha] by blast
    done
qed


theorem handled_failures_give_notes_example:
  "list_all (correlation_readable toy_platform) toy_inbox
   \<and> (\<exists>rs. enrich toy_platform ''0xme'' toy_inbox = Inr rs \<and> length rs = 3
         \<and> it_note (rs ! 0) = Some ''Integrity mismatch (on-chain hash != ciphertext hash).''
         \<and> it_plaintext (rs ! 0) = None
         \<and> it_note (rs ! 1) = Some
              ''Off-chain CIDs unknown on this device (ask sender or use shared backend/IPFS).''
         \<and> it_plaintext (rs ! 1) = None
         \<and> it_plaintext (rs ! 2) = Some ''hello'')
   \<and> tryDecrypt toy_platform ''0xother'' (base_item 1 ''0xa1'' ''0xother'' 100 ''0xab'' ''0x0102'')
       = Inr ((base_item 1 ''0xa1'' ''0xother'' 100 ''0xab'' ''0x0102'')
           \<lparr>it_contentCID := Some (JStr ''local://c''), it_keyCID := Some (JStr ''local://k''),
            it_note := Some ''Private JWK not imported for this address.''\<rparr>)
   \<and> tryDecrypt toy_platform ''0xme'' (base_item 5 ''0xa1'' ''0xme'' 140 ''0xab'' ''0x0102'')
       = Inr ((base_item 5 ''0xa1'' ''0xme'' 140 ''0xab'' ''0x0102'')
           \<lparr>it_contentCID := Some (JStr ''local://gone''), it_keyCID := Some (JStr ''local://gone''),
            it_note := Some ''local URI not found in this browser: local://gone''\<rparr>)"
proof -
  from handled_failures_give_notes [where pf = toy_platform and base = toy_inbox
      and me = "''0xme''", THEN conjunct1] toy_readable
  obtain rs where rs: "enrich toy_platform ''0xme'' toy_inbox = Inr rs"
      "length rs = length toy_inbox"
    by blast
  have len: "length toy_inbox = 3" by (simp add: toy_inbox_def)
  from rs(1) have "rs = [(base_item 3 ''0xa1'' ''0xme'' 120 ''0xcd'' ''0x0102'')
     \<lparr>it_contentCID := Some (JStr ''local://c''), it_keyCID := Some (JStr ''local://k''),
      it_note := Some ''Integrity mismatch (on-chain hash != ciphertext hash).''\<rparr>,
   (base_item 2 ''0xa1'' ''0xme'' 110 ''0xab'' ''0x0102'')
     \<lparr>it_note := Some ''Off-chain CIDs unknown on this device (ask sender or use shared backend/IPFS).''\<rparr>,
   (base_item 1 ''0xa1'' ''0xme'' 100 ''0xab'' ''0x0102'')
     \<lparr>it_contentCID := Some (JStr ''local://c''), it_keyCID := Some (JStr ''local://k''),
      it_plaintext := Some ''hello''\<rparr>]"
    unfolding toy_inbox_enriched by simp
  then have items: "it_note (rs ! 0) = Some ''Integrity mismatch (on-chain hash != ciphertext hash).''"
      "it_plaintext (rs ! 0) = None"
      "it_note (rs ! 1) = Some
              ''Off-chain CIDs unknown on this device (ask sender or use shared backend/IPFS).''"
      "it_plaintext (rs ! 1) = None"
      "it_plaintext (rs ! 2) = Some ''hello''"
    by (simp_all add: base_item_def)
  let ?it1 = "base_item 1 ''0xa1'' ''0xother'' 100 ''0xab'' ''0x0102''"
  let ?it5 = "base_item 5 ''0xa1'' ''0xme'' 140 ''0xab'' ''0x0102''"
  have five: "toString 5 = ''5''" by code_simp
  let ?m1 = "JObj [(''contentCID'', JStr ''local://c''), (''keyCID'', JStr ''local://k'')]"
  let ?m5 = "JObj [(''contentCID'', JStr ''local://gone''), (''keyCID'', JStr ''local://gone'')]"
  have known1: "\<not> empty_or_null (getItem toy_platform (''msgmap:'' @ toString (it_id ?it1)))
        \<and> JSON_parse toy_platform (the (getItem toy_platform (''msgmap:'' @ toString (it_id ?it1)))) = Inr ?m1
        \<and> property (TypeError toy_platform) ?m1 ''contentCID'' = Inr (Some (JStr ''local://c''))
        \<and> property (TypeError toy_platform) ?m1 ''keyCID'' = Inr (Some (JStr ''local://k''))"
    by (simp add: base_item_def toy_platform_def toString_examples)
  have known5: "\<not> empty_or_null (getItem toy_platform (''msgmap:'' @ toString (it_id ?it5)))
        \<and> JSON_parse toy_platform (the (getItem toy_platform (''msgmap:'' @ toString (it_id ?it5)))) = Inr ?m5
        \<and> property (TypeError toy_platform) ?m5 ''contentCID'' = Inr (Some (JStr ''local://gone''))
        \<and> property (TypeError toy_platform) ?m5 ''keyCID'' = Inr (Some (JStr ''local://gone''))"
    by (simp add: base_item_def toy_platform_def five)
  have nopriv: "empty_or_null (getItem toy_platform (''rsa:priv:'' @ ''0xother''))"
    by (simp add: toy_platform_def)
  have priv: "\<not> empty_or_null (getItem toy_platform (''rsa:priv:'' @ ''0xme''))"
      "the (getItem toy_platform ''rsa:priv:0xme'') = ''private-jwk''"
    by (simp_all add: toy_platform_def)
  have jwk: "JSON_parse toy_platform ''private-jwk'' = Inr (JObj [(''kty'', JStr ''RSA'')])"
      "importRsaPrivateKeyJwk toy_platform (JObj [(''kty'', JStr ''RSA'')]) = Inr ()"
    by (simp_all add: toy_platform_def)
  have gone: "ipfsGetJson toy_platform (Some (JStr ''local://gone''))
        = Inl (Thrown (Some ''local URI not found in this browser: local://gone''))"
    by (simp add: ipfsGetJson_def toy_platform_def)
  have nokey: "tryDecrypt toy_platform ''0xother'' ?it1
       = Inr (?it1\<lparr>it_contentCID := Some (JStr ''local://c''), it_keyCID := Some (JStr ''local://k''),
            it_note := Some ''Private JWK not imported for this address.''\<rparr>)"
    using handled_failures_give_notes [where pf = toy_platform and me = "''0xother''" and it = ?it1
        and m = ?m1 and contentCID = "Some (JStr ''local://c'')" and keyCID = "Some (JStr ''local://k'')",
        THEN conjunct2, THEN conjunct2, THEN conjunct2, THEN conjunct1, THEN mp, OF known1,
        THEN conjunct1, THEN mp, OF nopriv] .
  have thrown: "tryDecrypt_try toy_platform ?it5 (Some (JStr ''local://gone''))
        (Some (JStr ''local://gone'')) ''private-jwk''
       = Inl (Thrown (Some ''local URI not found in this browser: local://gone''))"
    using handled_failures_give_notes [where pf = toy_platform and it = ?it5
        and privRaw = "''private-jwk''" and jwk = "JObj [(''kty'', JStr ''RSA'')]" and priv = "()"
        and contentCID = "Some (JStr ''local://gone'')" and keyCID = "Some (JStr ''local://gone'')"
        and e = "Thrown (Some ''local URI not found in this browser: local://gone'')",
        THEN conjunct2, THEN conjunct2, THEN conjunct2, THEN conjunct2, THEN mp, OF jwk(1),
        THEN mp, OF jwk(2), THEN conjunct1, THEN mp, OF gone] .
  have unfetched: "tryDecrypt toy_platform ''0xme'' ?it5
       = Inr (?it5\<lparr>it_contentCID := Some (JStr ''local://gone''), it_keyCID := Some (JStr ''local://gone''),
            it_note := Some ''local URI not found in this browser: local://gone''\<rparr>)"
    using handled_failures_give_notes [where pf = toy_platform and me = "''0xme''" and it = ?it5
        and m = ?m5 and contentCID = "Some (JStr ''local://gone'')" and keyCID = "Some (JStr ''local://gone'')"
        and message = "Some ''local URI not found in this browser: local://gone''",
        THEN conjunct2, THEN conjunct2, THEN conjunct2, THEN conjunct1, THEN mp, OF known5,
        THEN conjunct2, THEN mp, OF priv(1), THEN conjunct1]
      thrown
    by (simp add: priv(2))
  show ?thesis using toy_readable rs len items nokey unfetched by auto
qed

text \<open>
  Claim C9. The code does not do what the claim says of every inbox entry. The correlation
  record of an entry is parsed, and its two locators are read, before the \<^verbatim>\<open>try\<close>
  block (line 62): when the record is stored but is no JSON text, or is the text
  \<^verbatim>\<open>null\<close>, \<^verbatim>\<open>tryDecrypt\<close> throws instead of returning the entry with a note, and the
  loop over the inbox (line 111) throws with it, whatever the entries before and after it
  are, so that no entry at all is handed to the view; when the entries before it can be
  read, the loop throws this very error. And a failure caught in the \<^verbatim>\<open>try\<close> block
  whose thrown message is the empty string gives the entry the empty string as its note
  and no plaintext, and the view shows no note for it.
\<close>

theorem receive_stops_at_unreadable_record:
  "(\<not> empty_or_null (getItem pf (''msgmap:'' @ toString (it_id it)))
      \<and> (JSON_parse pf (the (getItem pf (''msgmap:'' @ toString (it_id it)))) = Inl e
           \<or> JSON_parse pf (the (getItem pf (''msgmap:'' @ toString (it_id it)))) = Inr JNull
              \<and> e = TypeError pf) \<longrightarrow>
        tryDecrypt pf me it = Inl e
      \<and> (\<exists>e'. enrich pf me (before @ it # rest) = Inl e')
      \<and> (list_all (correlation_readable pf) before \<longrightarrow>
            enrich pf me (before @ it # rest) = Inl e))
   \<and> (\<not> empty_or_null (getItem pf (''msgmap:'' @ toString (it_id it)))
        \<and> JSON_parse pf (the (getItem pf (''msgmap:'' @ toString (it_id it)))) = Inr m
        \<and> property (TypeError pf) m ''contentCID'' = Inr contentCID
        \<and> property (TypeError pf) m ''keyCID'' = Inr keyCID
        \<and> \<not> empty_or_null (getItem pf (''rsa:priv:'' @ me))
        \<and> tryDecrypt_try pf it contentCID keyCID (the (getItem pf (''rsa:priv:'' @ me)))
             = Inl (Thrown (Some [])) \<longrightarrow>
          tryDecrypt pf me it
             = Inr (it\<lparr>it_contentCID := contentCID, it_keyCID := keyCID, it_note := Some []\<rparr>)
        \<and> note_shown (it\<lparr>it_contentCID := contentCID, it_keyCID := keyCID, it_note := Some []\<rparr>)
             = None
        \<and> it_plaintext (it\<lparr>it_contentCID := contentCID, it_keyCID := keyCID, it_note := Some []\<rparr>)
             = it_plaintext it)"
proof -
  have 1: "tryDecrypt pf me it = Inl e
      \<and> (\<exists>e'. enrich pf me (before @ it # rest) = Inl e')
      \<and> (list_all (correlation_readable pf) before \<longrightarrow>
            enrich pf me (before @ it # rest) = Inl e)"
    if stored: "\<not> empty_or_null (getItem pf (''msgmap:'' @ toString (it_id it)))"
      and bad: "JSON_parse pf (the (getItem pf (''msgmap:'' @ toString (it_id it)))) = Inl e
           \<or> JSON_parse pf (the (getItem pf (''msgmap:'' @ toString (it_id it)))) = Inr JNull
              \<and> e = TypeError pf"
  proof -
    have t: "tryDecrypt pf me it = Inl e"
      using bad tryDecrypt_unparsed [OF stored, of e me] tryDecrypt_null_record [OF stored, of me]
      by blast
    show ?thesis
      using t enrich_throws [OF t, of before rest] enrich_throws_first [of pf before me it e rest]
      by blast
  qed
  have 2: "tryDecrypt pf me it
             = Inr (it\<lparr>it_contentCID := contentCID, it_keyCID := keyCID, it_note := Some []\<rparr>)"
    if "\<not> empty_or_null (getItem pf (''msgmap:'' @ toString (it_id it)))"
      "JSON_parse pf (the (getItem pf (''msgmap:'' @ toString (it_id it)))) = Inr m"
      "property (TypeError pf) m ''contentCID'' = Inr contentCID"
      "property (TypeError pf) m ''keyCID'' = Inr keyCID"
      "\<not> empty_or_null (getItem pf (''rsa:priv:'' @ me))"
      "tryDecrypt_try pf it contentCID keyCID (the (getItem pf (''rsa:priv:'' @ me)))
             = Inl (Thrown (Some []))"
    unfolding tryDecrypt_known [OF that(1-4)] using that(5,6) by simp
  have 3: "note_shown (it\<lparr>it_contentCID := contentCID, it_keyCID := keyCID, it_note := Some []\<rparr>)
             = None"
    by (simp add: note_shown_def)
  have 4: "it_plaintext (it\<lparr>it_contentCID := contentCID, it_keyCID := keyCID, it_note := Some []\<rparr>)
             = it_plaintext it"
    by simp
  show ?thesis
    apply (intro conjI impI)
    subgoal using 1 by blast
    subgoal using 1 by blast
    subgoal using 1 by blast
    subgoal using 2 by blast
    subgoal by (rule 3)
    subgoal by (rule 4)
    done
qed

theorem receive_stops_at_unreadable_record_witness:
  "tryDecrypt toy_platform ''0xme'' (base_item 4 ''0xa1'' ''0xme'' 130 ''0xab'' ''0x0102'')
     = Inl (Thrown (Some ''Unexpected token''))
   \<and> enrich toy_platform ''0xme''
       (toy_inbox @ base_item 4 ''0xa1'' ''0xme'' 130 ''0xab'' ''0x0102''
          # [base_item 5 ''0xa1'' ''0xme'' 140 ''0xab'' ''0x0102''])
     = Inl (Thrown (Some ''Unexpected token''))
   \<and> tryDecrypt (toy_platform\<lparr>aesDecrypt := \<lambda>ct key iv. Inl (Thrown (Some []))\<rparr>) ''0xme''
        (base_item 1 ''0xa1'' ''0xme'' 100 ''0xab'' ''0x0102'')
     = Inr ((base_item 1 ''0xa1'' ''0xme'' 100 ''0xab'' ''0x0102'')
         \<lparr>it_contentCID := Some (JStr ''local://c''), it_keyCID := Some (JStr ''local://k''),
          it_note := Some []\<rparr>)
   \<and> note_shown ((base_item 1 ''0xa1'' ''0xme'' 100 ''0xab'' ''0x0102'')
         \<lparr>it_contentCID := Some (JStr ''local://c''), it_keyCID := Some (JStr ''local://k''),
          it_note := Some []\<rparr>) = None"
proof -
  let ?it4 = "base_item 4 ''0xa1'' ''0xme'' 130 ''0xab'' ''0x0102''"
  let ?it5 = "base_item 5 ''0xa1'' ''0xme'' 140 ''0xab'' ''0x0102''"
  let ?it1 = "base_item 1 ''0xa1'' ''0xme'' 100 ''0xab'' ''0x0102''"
  let ?pf = "toy_platform\<lparr>aesDecrypt := \<lambda>ct key iv. Inl (Thrown (Some []))\<rparr>"
  let ?m = "JObj [(''contentCID'', JStr ''local://c''), (''keyCID'', JStr ''local://k'')]"
  have four: "toString 4 = ''4''" by code_simp
  have garbled: "\<not> empty_or_null (getItem toy_platform (''msgmap:'' @ toString (it_id ?it4)))
      \<and> (JSON_parse toy_platform (the (getItem toy_platform (''msgmap:'' @ toString (it_id ?it4))))
            = Inl (Thrown (Some ''Unexpected token''))
           \<or> JSON_parse toy_platform (the (getItem toy_platform (''msgmap:'' @ toString (it_id ?it4))))
            = Inr JNull \<and> Thrown (Some ''Unexpected token'') = TypeError toy_platform)"
    by (simp add: base_item_def toy_platform_def four)
  note t = receive_stops_at_unreadable_record [where pf = toy_platform and me = "''0xme''"
      and it = ?it4 and e = "Thrown (Some ''Unexpected token'')" and before = toy_inbox
      and rest = "[?it5]", THEN conjunct1, THEN mp, OF garbled]
  have 1: "tryDecrypt toy_platform ''0xme'' ?it4 = Inl (Thrown (Some ''Unexpected token''))"
    using t by blast
  have 2: "enrich toy_platform ''0xme'' (toy_inbox @ ?it4 # [?it5])
     = Inl (Thrown (Some ''Unexpected token''))"
    using t toy_readable by blast
  have caught: "\<not> empty_or_null (getItem ?pf (''msgmap:'' @ toString (it_id ?it1)))
        \<and> JSON_parse ?pf (the (getItem ?pf (''msgmap:'' @ toString (it_id ?it1)))) = Inr ?m
        \<and> property (TypeError ?pf) ?m ''contentCID'' = Inr (Some (JStr ''local://c''))
        \<and> property (TypeError ?pf) ?m ''keyCID'' = Inr (Some (JStr ''local://k''))
        \<and> \<not> empty_or_null (getItem ?pf (''rsa:priv:'' @ ''0xme''))
        \<and> tryDecrypt_try ?pf ?it1 (Some (JStr ''local://c'')) (Some (JStr ''local://k''))
             (the (getItem ?pf (''rsa:priv:'' @ ''0xme''))) = Inl (Thrown (Some []))"
    by (simp add: base_item_def toy_platform_def toString_examples tryDecrypt_try_def await_def
        ipfsGetJson_def hexToBytes_def Let_def)
  note u = receive_stops_at_unreadable_record [where pf = ?pf and me = "''0xme''"
      and it = ?it1 and m = ?m and contentCID = "Some (JStr ''local://c'')"
      and keyCID = "Some (JStr ''local://k'')", THEN conjunct2, THEN mp, OF caught]
  have 3: "tryDecrypt ?pf ''0xme'' ?it1
     = Inr (?it1\<lparr>it_contentCID := Some (JStr ''local://c''), it_keyCID := Some (JStr ''local://k''),
          it_note := Some []\<rparr>)"
    using u by blast
  have 4: "note_shown (?it1\<lparr>it_contentCID := Some (JStr ''local://c''),
          it_keyCID := Some (JStr ''local://k''), it_note := Some []\<rparr>) = None"
    using u by blast
  show ?thesis using 1 2 3 4 by blast
qed

end
